theory Spec2Isabelle
  imports Main "HOL-Library.Word" "HOL-Library.Sublist"
begin

section \<open>Constants of NonBlockingThingSpeak.h\<close>

definition FIELDNUM_MIN :: nat where "FIELDNUM_MIN = 1"
definition FIELDNUM_MAX :: nat where "FIELDNUM_MAX = 8"
definition FIELDLENGTH_MAX :: nat where "FIELDLENGTH_MAX = 255"
definition TIMEOUT_MS_SERVERRESPONSE :: "32 word" where "TIMEOUT_MS_SERVERRESPONSE = 5000"

definition TS_OK_SUCCESS :: int where "TS_OK_SUCCESS = 200"
definition TS_ERR_OUT_OF_RANGE :: int where "TS_ERR_OUT_OF_RANGE = - 101"
definition TS_ERR_INVALID_FIELD_NUM :: int where "TS_ERR_INVALID_FIELD_NUM = - 201"
definition TS_ERR_SETFIELD_NOT_CALLED :: int where "TS_ERR_SETFIELD_NOT_CALLED = - 210"
definition TS_ERR_CONNECT_FAILED :: int where "TS_ERR_CONNECT_FAILED = - 301"
definition TS_ERR_UNEXPECTED_FAIL :: int where "TS_ERR_UNEXPECTED_FAIL = - 302"
definition TS_ERR_BAD_RESPONSE :: int where "TS_ERR_BAD_RESPONSE = - 303"
definition TS_ERR_TIMEOUT :: int where "TS_ERR_TIMEOUT = - 304"
definition TS_ERR_NOT_INSERTED :: int where "TS_ERR_NOT_INSERTED = - 401"

text \<open>The user agent of the ESP8266 build (the header picks one by the board macro; every
  variant is a non-empty literal).\<close>
definition TS_USER_AGENT :: string where
  "TS_USER_AGENT = ''tslib-arduino/2.0.0 (ESP8266)''"

definition CRLF :: string where "CRLF = [CHR 0x0D, CHR 0x0A]"

section \<open>Decimal text\<close>

definition digit_char :: "nat \<Rightarrow> char" where
  "digit_char d = ''0123456789'' ! (d mod 10)"

definition is_digit :: "char \<Rightarrow> bool" where
  "is_digit c = (c \<in> set ''0123456789'')"

definition digit_val :: "char \<Rightarrow> int" where
  "digit_val c = int (of_char c) - 48"

text \<open>What \<open>print\<close> and \<open>String::concat\<close> produce for an unsigned number.\<close>
fun dec :: "nat \<Rightarrow> string" where
  "dec n = (if n < 10 then [digit_char n] else dec (n div 10) @ [digit_char (n mod 10)])"

definition dec_int :: "int \<Rightarrow> string" where
  "dec_int i = (if i < 0 then CHR ''-'' # dec (nat (- i)) else dec (nat i))"

section \<open>The transport (Client, a Stream)\<close>

text \<open>
  The client is an external collaborator; the model keeps what the library can observe of
  it and counts the calls made on it.  \<open>rx\<close> holds the bytes that have arrived and are not
  yet read (\<open>available()\<close> is its length), \<open>tx\<close> the bytes accepted by \<open>print\<close>, \<open>room\<close>
  how many more bytes the connection will accept (a \<open>print\<close> that writes nothing returns 0,
  which the library reads as a failure), \<open>connect_ok\<close> what \<open>connect\<close> answers.
\<close>
record client_t =
  rx :: string
  tx :: string
  room :: nat
  connect_ok :: bool
  connects :: nat
  flushes :: nat
  stops :: nat

definition available :: "client_t \<Rightarrow> int" where
  "available c = int (length (rx c))"

definition cconnect :: "client_t \<Rightarrow> bool \<times> client_t" where
  "cconnect c = (connect_ok c, c\<lparr>connects := Suc (connects c)\<rparr>)"

definition cflush :: "client_t \<Rightarrow> client_t" where
  "cflush c = c\<lparr>flushes := Suc (flushes c)\<rparr>"

definition cstop :: "client_t \<Rightarrow> client_t" where
  "cstop c = c\<lparr>stops := Suc (stops c)\<rparr>"

definition cprint :: "string \<Rightarrow> client_t \<Rightarrow> nat \<times> client_t" where
  "cprint str c =
     (let n = min (length str) (room c)
      in (n, c\<lparr>tx := tx c @ take n str, room := room c - n\<rparr>))"

text \<open>A run of \<open>if (!client->print(x)) { abort; return; }\<close> statements: the pieces are
  printed in order and the run stops at the first \<open>print\<close> that returns 0.\<close>
fun print_all :: "string list \<Rightarrow> client_t \<Rightarrow> bool \<times> client_t" where
  "print_all [] c = (True, c)"
| "print_all (p # ps) c =
     (case cprint p c of (n, c') \<Rightarrow> if n = 0 then (False, c') else print_all ps c')"

definition then_print :: "bool \<times> client_t \<Rightarrow> (client_t \<Rightarrow> bool \<times> client_t) \<Rightarrow> bool \<times> client_t" where
  "then_print r f = (case r of (False, c) \<Rightarrow> (False, c) | (True, c) \<Rightarrow> f c)"

text \<open>\<open>Stream::find(target)\<close>: bytes are read until the target has been read; when the
  buffered bytes run out first the call gives up (after the stream's own timeout) with
  everything consumed.  No byte arrives during a call: bytes arrive between polls.\<close>
fun find_str :: "string \<Rightarrow> string \<Rightarrow> string option" where
  "find_str t [] = (if t = [] then Some [] else None)"
| "find_str t (c # cs) =
     (if prefix t (c # cs) then Some (drop (length t) (c # cs)) else find_str t cs)"

definition cfind :: "string \<Rightarrow> client_t \<Rightarrow> bool \<times> client_t" where
  "cfind t c = (case find_str t (rx c) of
                  None \<Rightarrow> (False, c\<lparr>rx := []\<rparr>)
                | Some r \<Rightarrow> (True, c\<lparr>rx := r\<rparr>))"

text \<open>\<open>Stream::parseInt()\<close> (lookahead \<open>SKIP_ALL\<close>, ignore character 0x01): bytes are
  discarded up to the first minus sign or digit; then digits (and ignore characters) are
  consumed up to the first other byte, which stays in the stream.  With nothing numeric
  buffered the result is 0.\<close>
fun peekNextDigit :: "string \<Rightarrow> string" where
  "peekNextDigit [] = []"
| "peekNextDigit (c # cs) =
     (if c = CHR ''-'' \<or> is_digit c then c # cs else peekNextDigit cs)"

text \<open>The number is built in a \<open>long\<close>, and the decoder stores it in an \<open>int\<close>; both are
  32 bits wide on the boards the header is written for (ESP8266, ESP32), and a value that
  leaves the range wraps around.  \<open>to_long\<close> is that wrap on the mathematical value.\<close>
definition to_long :: "int \<Rightarrow> int" where
  "to_long v = (v + 2147483648) mod 4294967296 - 2147483648"

fun parse_digits :: "int \<Rightarrow> string \<Rightarrow> int \<times> string" where
  "parse_digits v [] = (v, [])"
| "parse_digits v (c # cs) =
     (if is_digit c then parse_digits (to_long (v * 10 + digit_val c)) cs
      else if c = CHR 0x01 then parse_digits v cs
      else (v, c # cs))"

definition parseInt_str :: "string \<Rightarrow> int \<times> string" where
  "parseInt_str s =
     (case peekNextDigit s of
        [] \<Rightarrow> (0, [])
      | c # cs \<Rightarrow>
          if c = CHR ''-'' then (case parse_digits 0 cs of (v, r) \<Rightarrow> (to_long (- v), r))
          else parse_digits 0 (c # cs))"

definition cparseInt :: "client_t \<Rightarrow> int \<times> client_t" where
  "cparseInt c = (case parseInt_str (rx c) of (v, r) \<Rightarrow> (v, c\<lparr>rx := r\<rparr>))"

section \<open>Arduino String helpers\<close>

definition isspace :: "char \<Rightarrow> bool" where
  "isspace c = (c \<in> set [CHR 0x20, CHR 0x09, CHR 0x0A, CHR 0x0B, CHR 0x0C, CHR 0x0D])"

fun digits_value :: "int \<Rightarrow> string \<Rightarrow> int" where
  "digits_value v [] = v"
| "digits_value v (c # cs) =
     (if is_digit c then digits_value (v * 10 + digit_val c) cs else v)"

text \<open>\<open>String::toInt()\<close> is \<open>atol\<close>: leading white space, an optional sign, digits, the
  value kept inside a 32-bit \<open>long\<close>; text with no leading number gives 0.\<close>
definition toInt :: "string \<Rightarrow> int" where
  "toInt str =
     (let t = dropWhile isspace str;
          v = (case t of
                 [] \<Rightarrow> 0
               | c # cs \<Rightarrow>
                   if c = CHR ''-'' then - digits_value 0 cs
                   else if c = CHR ''+'' then digits_value 0 cs
                   else digits_value 0 t)
      in max (- 2147483648) (min 2147483647 v))"

fun indexOf_aux :: "string \<Rightarrow> string \<Rightarrow> nat \<Rightarrow> int" where
  "indexOf_aux sub [] k = - 1"
| "indexOf_aux sub (c # cs) k =
     (if prefix sub (c # cs) then int k else indexOf_aux sub cs (Suc k))"

definition indexOf :: "string \<Rightarrow> string \<Rightarrow> nat \<Rightarrow> int" where
  "indexOf str sub fromIndex =
     (if fromIndex \<ge> length str then - 1 else indexOf_aux sub (drop fromIndex str) fromIndex)"

definition getJSONValueByKey :: "string \<Rightarrow> string \<Rightarrow> string" where
  "getJSONValueByKey textToSearch key =
     (if length textToSearch = 0 then []
      else
        let searchPhrase = [CHR 0x22] @ key @ [CHR 0x22, CHR '':'', CHR 0x22];
            fromPosition = indexOf textToSearch searchPhrase 0
        in if fromPosition = - 1 then []
           else
             let fromPosition = fromPosition + int (length searchPhrase);
                 toPosition = indexOf textToSearch [CHR 0x22] (nat fromPosition)
             in if toPosition = - 1 then []
                else drop (nat fromPosition) (take (nat toPosition) textToSearch))"

definition parseValues :: "string \<Rightarrow> string \<Rightarrow> string" where
  "parseValues multiContent key =
     (if length multiContent = 0 then []
      else
        let searchPhrase = [CHR 0x22] @ key @ [CHR 0x22, CHR '':'', CHR 0x22];
            fromPosition = indexOf multiContent searchPhrase 0
        in if fromPosition = - 1 then []
           else
             let fromPosition = fromPosition + int (length searchPhrase);
                 toPosition = indexOf multiContent [CHR 0x22] (nat fromPosition)
             in if toPosition = - 1 then []
                else take (nat toPosition - nat fromPosition) (drop (nat fromPosition) multiContent))"

section \<open>The object state\<close>

text \<open>Floating point is outside the embedding.  A staged coordinate is kept as the three
  things the code observes of it: whether it is NaN, the text \<open>String(x)\<close> builds (its
  length is counted for Content-Length) and the text \<open>client->print(x)\<close> writes.\<close>
datatype cfloat = CFloat (isnan: bool) (as_String: string) (as_print: string)

definition NAN :: cfloat where "NAN = CFloat True ''nan'' ''nan''"

record feedRecord =
  nextReadField :: "nat \<Rightarrow> string"
  nextReadStatus :: string
  nextReadLatitude :: string
  nextReadLongitude :: string
  nextReadElevation :: string
  nextReadCreatedAt :: string

text \<open>The closures pushed on \<open>stackofreturns\<close>; each captures only \<open>this\<close>, so a frame is
  the name of the code it runs.\<close>
datatype frame =
    F_getHTTPResponse
  | F_getHTTPResponse_1
  | F_readRaw_1
  | F_finishWrite_1
  | F_onWriteField
  | F_onWriteFields
  | F_onWriteRaw
  | F_onReadStringField
  | F_onReadFloatField
  | F_onReadLongField
  | F_onReadIntField
  | F_readStatus_1
  | F_readCreatedAt_1
  | F_readMultipleFields_1

text \<open>The completion callbacks are empty member functions for the sketch to fill in; the
  model logs each call with its argument.  A float argument is logged as the text it is
  converted from.\<close>
datatype callback =
    OnWriteFields int
  | OnWriteField int
  | OnWriteRaw int
  | OnReadMultipleFields int
  | OnReadStringField string
  | OnReadFloatField string
  | OnReadLongField int
  | OnReadIntField int
  | OnReadStatus string
  | OnReadCreatedAt string

record ts =
  client :: client_t
  clock :: "32 word"
  httpresponsetext :: string
  stackofreturns :: "frame list"
  timestamp1 :: "32 word"
  contentLength :: int
  nextWriteField :: "nat \<Rightarrow> string"
  nextWriteLatitude :: cfloat
  nextWriteLongitude :: cfloat
  nextWriteElevation :: cfloat
  lastReadStatus :: int
  nextWriteStatus :: string
  nextWriteTwitter :: string
  nextWriteTweet :: string
  nextWriteCreatedAt :: string
  lastFeed :: feedRecord
  calls :: "callback list"

definition millis :: "ts \<Rightarrow> 32 word" where
  "millis s = clock s"

definition fire :: "callback \<Rightarrow> ts \<Rightarrow> ts" where
  "fire cb s = s\<lparr>calls := calls s @ [cb]\<rparr>"

definition emplace :: "frame \<Rightarrow> ts \<Rightarrow> ts" where
  "emplace f s = s\<lparr>stackofreturns := f # stackofreturns s\<rparr>"

text \<open>\<open>std::stack::pop\<close>; the code never pops an empty stack on the paths modelled, and the
  model leaves an empty stack empty.\<close>
definition pop :: "ts \<Rightarrow> ts" where
  "pop s = s\<lparr>stackofreturns := tl (stackofreturns s)\<rparr>"

definition getLastReadStatus :: "ts \<Rightarrow> int" where
  "getLastReadStatus s = lastReadStatus s"

definition resetWriteFields :: "ts \<Rightarrow> ts" where
  "resetWriteFields s =
     s\<lparr>nextWriteField := (\<lambda>iField. if iField < FIELDNUM_MAX then [] else nextWriteField s iField),
       nextWriteLatitude := NAN,
       nextWriteLongitude := NAN,
       nextWriteElevation := NAN,
       nextWriteStatus := [],
       nextWriteTwitter := [],
       nextWriteTweet := [],
       nextWriteCreatedAt := []\<rparr>"

definition emptyStream :: "ts \<Rightarrow> ts" where
  "emptyStream s = s\<lparr>client := (client s)\<lparr>rx := []\<rparr>\<rparr>"

definition connectThingSpeak :: "ts \<Rightarrow> bool \<times> ts" where
  "connectThingSpeak s = (case cconnect (client s) of (ok, c) \<Rightarrow> (ok, s\<lparr>client := c\<rparr>))"

definition abortWriteRaw :: "ts \<Rightarrow> int \<times> ts" where
  "abortWriteRaw s =
     (TS_ERR_UNEXPECTED_FAIL, resetWriteFields (s\<lparr>client := cstop ((client s)\<lparr>rx := []\<rparr>)\<rparr>))"

definition abortReadRaw :: "ts \<Rightarrow> string \<times> ts" where
  "abortReadRaw s =
     ([], s\<lparr>client := cstop ((client s)\<lparr>rx := []\<rparr>), lastReadStatus := TS_ERR_UNEXPECTED_FAIL\<rparr>)"

definition header_pieces :: "string option \<Rightarrow> string list" where
  "header_pieces APIKey =
     [''Host: api.thingspeak.com'' @ CRLF, ''User-Agent: '', TS_USER_AGENT, CRLF] @
     (case APIKey of
        None \<Rightarrow> []
      | Some k \<Rightarrow> [''X-THINGSPEAKAPIKEY: '', k, CRLF])"

definition writeHTTPHeader :: "string option \<Rightarrow> client_t \<Rightarrow> bool \<times> client_t" where
  "writeHTTPHeader APIKey c = print_all (header_pieces APIKey) c"

section \<open>The response decoder\<close>

definition getHTTPResponse_1 :: "ts \<Rightarrow> ts" where
  "getHTTPResponse_1 s =
     (if available (client s) < contentLength s then
        (if millis s - timestamp1 s > TIMEOUT_MS_SERVERRESPONSE
         then pop (s\<lparr>lastReadStatus := TS_ERR_TIMEOUT\<rparr>)
         else s)
      else
        let n = nat (contentLength s);
            tempString = take n (rx (client s))
        in pop (s\<lparr>client := (client s)\<lparr>rx := drop n (rx (client s))\<rparr>,
                 httpresponsetext := tempString\<rparr>))"

text \<open>\<open>lastReadStatus\<close> and \<open>contentLength\<close> are \<open>int\<close> members assigned from
  \<open>parseInt()\<close>; what they receive is the 32-bit value \<open>cparseInt\<close> returns.\<close>
definition getHTTPResponse :: "ts \<Rightarrow> ts" where
  "getHTTPResponse s =
     (if available (client s) < 17 then
        (if millis s - timestamp1 s > TIMEOUT_MS_SERVERRESPONSE
         then pop (s\<lparr>lastReadStatus := TS_ERR_TIMEOUT\<rparr>)
         else s)
      else
        (case cfind ''HTTP/1.1'' (client s) of
           (False, c1) \<Rightarrow> pop (s\<lparr>client := c1, lastReadStatus := TS_ERR_BAD_RESPONSE\<rparr>)
         | (True, c1) \<Rightarrow>
             (case cparseInt c1 of
                (code, c2) \<Rightarrow>
                  (if code \<noteq> TS_OK_SUCCESS then pop (s\<lparr>client := c2, lastReadStatus := code\<rparr>)
                   else
                     (case cfind ''Content-Length:'' c2 of
                        (False, c3) \<Rightarrow>
                          pop (s\<lparr>client := c3, lastReadStatus := TS_ERR_BAD_RESPONSE\<rparr>)
                      | (True, c3) \<Rightarrow>
                          (case cparseInt c3 of
                             (len, c4) \<Rightarrow>
                               (case cfind (CRLF @ CRLF) c4 of
                                  (False, c5) \<Rightarrow>
                                    pop (s\<lparr>client := c5, contentLength := len,
                                           lastReadStatus := TS_ERR_BAD_RESPONSE\<rparr>)
                                | (True, c5) \<Rightarrow>
                                    getHTTPResponse_1
                                      (emplace F_getHTTPResponse_1
                                         (pop (s\<lparr>client := c5, contentLength := len,
                                                 lastReadStatus := code,
                                                 timestamp1 := millis s\<rparr>))))))))))"

section \<open>Finishing a request\<close>

definition readRaw_1 :: "ts \<Rightarrow> ts" where
  "readRaw_1 s =
     (let s1 = emptyStream s;
          s2 = s1\<lparr>client := cstop (client s1)\<rparr>;
          s3 = (if lastReadStatus s2 \<noteq> TS_OK_SUCCESS then s2\<lparr>httpresponsetext := []\<rparr> else s2)
      in pop s3)"

definition finishWrite_1 :: "ts \<Rightarrow> ts" where
  "finishWrite_1 s =
     (let s1 = pop (emptyStream s)
      in if getLastReadStatus s1 \<noteq> TS_OK_SUCCESS then s1\<lparr>client := cstop (client s1)\<rparr>
         else
           let entryID = toInt (httpresponsetext s1);
               s2 = s1\<lparr>client := cstop (client s1)\<rparr>
           in if entryID = 0 then s2\<lparr>lastReadStatus := TS_ERR_NOT_INSERTED\<rparr> else s2)"

definition finishWrite :: "ts \<Rightarrow> ts" where
  "finishWrite s =
     (let s1 = s\<lparr>client := cflush (client s), httpresponsetext := []\<rparr>;
          s2 = emplace F_getHTTPResponse (emplace F_finishWrite_1 s1);
          s3 = s2\<lparr>timestamp1 := millis s2\<rparr>
      in getHTTPResponse s3)"

definition readStatus_1 :: "ts \<Rightarrow> ts" where
  "readStatus_1 s =
     (let s1 = pop s
      in if getLastReadStatus s1 \<noteq> TS_OK_SUCCESS
         then (let s2 = s1\<lparr>httpresponsetext := []\<rparr> in fire (OnReadStatus (httpresponsetext s2)) s2)
         else fire (OnReadStatus (getJSONValueByKey (httpresponsetext s1) ''status'')) s1)"

definition readCreatedAt_1 :: "ts \<Rightarrow> ts" where
  "readCreatedAt_1 s =
     (let s1 = pop s
      in if getLastReadStatus s1 \<noteq> TS_OK_SUCCESS
         then (let s2 = s1\<lparr>httpresponsetext := []\<rparr> in fire (OnReadCreatedAt (httpresponsetext s2)) s2)
         else fire (OnReadCreatedAt (getJSONValueByKey (httpresponsetext s1) ''created_at'')) s1)"

definition readMultipleFields_1 :: "ts \<Rightarrow> ts" where
  "readMultipleFields_1 s =
     (if getLastReadStatus s \<noteq> TS_OK_SUCCESS
      then (let s1 = pop s in fire (OnReadMultipleFields (lastReadStatus s1)) s1)
      else
        let t = httpresponsetext s;
            fd = (lastFeed s)
              \<lparr>nextReadField :=
                 (\<lambda>i. if i < 8 then parseValues t (''field'' @ dec (Suc i))
                      else nextReadField (lastFeed s) i),
               nextReadStatus := parseValues t ''status'',
               nextReadLatitude := parseValues t ''latitude'',
               nextReadLongitude := parseValues t ''longitude'',
               nextReadElevation := parseValues t ''elevation'',
               nextReadCreatedAt := parseValues t ''created_at''\<rparr>;
            s1 = pop (s\<lparr>lastFeed := fd\<rparr>);
            s2 = s1\<lparr>lastReadStatus := TS_OK_SUCCESS\<rparr>
        in fire (OnReadMultipleFields (lastReadStatus s2)) s2)"

section \<open>The scheduler\<close>

fun invoke :: "frame \<Rightarrow> ts \<Rightarrow> ts" where
  "invoke F_getHTTPResponse s = getHTTPResponse s"
| "invoke F_getHTTPResponse_1 s = getHTTPResponse_1 s"
| "invoke F_readRaw_1 s = readRaw_1 s"
| "invoke F_finishWrite_1 s = finishWrite_1 s"
| "invoke F_onWriteField s = fire (OnWriteField (getLastReadStatus s)) s"
| "invoke F_onWriteFields s = (let s1 = pop s in fire (OnWriteFields (lastReadStatus s1)) s1)"
| "invoke F_onWriteRaw s = (let s1 = pop s in fire (OnWriteRaw (getLastReadStatus s1)) s1)"
| "invoke F_onReadStringField s =
     (let s1 = pop s in fire (OnReadStringField (httpresponsetext s1)) s1)"
| "invoke F_onReadFloatField s =
     (let s1 = pop s in fire (OnReadFloatField (httpresponsetext s1)) s1)"
| "invoke F_onReadLongField s =
     (let s1 = pop s in fire (OnReadLongField (toInt (httpresponsetext s1))) s1)"
| "invoke F_onReadIntField s =
     (let s1 = pop s in fire (OnReadIntField (toInt (httpresponsetext s1))) s1)"
| "invoke F_readStatus_1 s = readStatus_1 s"
| "invoke F_readCreatedAt_1 s = readCreatedAt_1 s"
| "invoke F_readMultipleFields_1 s = readMultipleFields_1 s"

definition run :: "ts \<Rightarrow> ts" where
  "run s = (case stackofreturns s of [] \<Rightarrow> s | f # _ \<Rightarrow> invoke f s)"

section \<open>Reading\<close>

definition getFieldAsString :: "nat \<Rightarrow> ts \<Rightarrow> string \<times> ts" where
  "getFieldAsString field s =
     (if field < FIELDNUM_MIN \<or> field > FIELDNUM_MAX
      then ([], s\<lparr>lastReadStatus := TS_ERR_INVALID_FIELD_NUM\<rparr>)
      else (nextReadField (lastFeed s) (field - 1), s\<lparr>lastReadStatus := TS_OK_SUCCESS\<rparr>))"

definition readRaw :: "nat \<Rightarrow> string \<Rightarrow> string option \<Rightarrow> ts \<Rightarrow> ts" where
  "readRaw channelNumber suffixURL readAPIKey s =
     (case connectThingSpeak s of
        (False, s1) \<Rightarrow> s1\<lparr>lastReadStatus := TS_ERR_CONNECT_FAILED, httpresponsetext := []\<rparr>
      | (True, s1) \<Rightarrow>
          let readURL = ''/channels/'' @ dec channelNumber @ suffixURL
          in (case then_print
                     (then_print (print_all [''GET '', readURL, '' HTTP/1.1'' @ CRLF] (client s1))
                        (writeHTTPHeader readAPIKey))
                     (print_all [CRLF]) of
                (False, c) \<Rightarrow>
                  (case abortReadRaw (s1\<lparr>client := c\<rparr>) of
                     (r, s2) \<Rightarrow> s2\<lparr>httpresponsetext := r\<rparr>)
              | (True, c) \<Rightarrow>
                  (let s2 = s1\<lparr>client := cflush c\<rparr>;
                       s3 = s2\<lparr>timestamp1 := millis s2\<rparr>
                   in getHTTPResponse (emplace F_getHTTPResponse (emplace F_readRaw_1 s3)))))"

definition readStringFieldSilent :: "nat \<Rightarrow> nat \<Rightarrow> string option \<Rightarrow> bool \<Rightarrow> ts \<Rightarrow> ts" where
  "readStringFieldSilent channelNumber field readAPIKey silent s =
     (if field < FIELDNUM_MIN \<or> field > FIELDNUM_MAX then
        let s1 = s\<lparr>lastReadStatus := TS_ERR_INVALID_FIELD_NUM, httpresponsetext := []\<rparr>
        in if \<not> silent then fire (OnReadStringField (httpresponsetext s1)) s1 else s1
      else
        let suffixURL = ''/fields/'' @ dec field @ ''/last'';
            s1 = (if \<not> silent then emplace F_onReadStringField s else s)
        in readRaw channelNumber suffixURL readAPIKey s1)"

definition readStringField :: "nat \<Rightarrow> nat \<Rightarrow> string option \<Rightarrow> ts \<Rightarrow> ts" where
  "readStringField channelNumber field readAPIKey s =
     readStringFieldSilent channelNumber field readAPIKey False s"

definition readFloatField :: "nat \<Rightarrow> nat \<Rightarrow> string option \<Rightarrow> ts \<Rightarrow> ts" where
  "readFloatField channelNumber field readAPIKey s =
     readStringFieldSilent channelNumber field readAPIKey True (emplace F_onReadFloatField s)"

definition readLongField :: "nat \<Rightarrow> nat \<Rightarrow> string option \<Rightarrow> ts \<Rightarrow> ts" where
  "readLongField channelNumber field readAPIKey s =
     readStringFieldSilent channelNumber field readAPIKey True (emplace F_onReadLongField s)"

definition readIntField :: "nat \<Rightarrow> nat \<Rightarrow> string option \<Rightarrow> ts \<Rightarrow> ts" where
  "readIntField channelNumber field readAPIKey s =
     readStringFieldSilent channelNumber field readAPIKey True (emplace F_onReadIntField s)"

definition readStatus :: "nat \<Rightarrow> string option \<Rightarrow> ts \<Rightarrow> ts" where
  "readStatus channelNumber readAPIKey s =
     readRaw channelNumber ''/feeds/last.txt?status=true'' readAPIKey (emplace F_readStatus_1 s)"

definition readCreatedAt :: "nat \<Rightarrow> string option \<Rightarrow> ts \<Rightarrow> ts" where
  "readCreatedAt channelNumber readAPIKey s =
     readRaw channelNumber ''/feeds/last.txt'' readAPIKey (emplace F_readCreatedAt_1 s)"

definition readMultipleFields :: "nat \<Rightarrow> string option \<Rightarrow> ts \<Rightarrow> ts" where
  "readMultipleFields channelNumber readAPIKey s =
     readRaw channelNumber ''/feeds/last.txt?status=true&location=true'' readAPIKey
       (emplace F_readMultipleFields_1 s)"

section \<open>Writing\<close>

definition setField :: "nat \<Rightarrow> string \<Rightarrow> ts \<Rightarrow> int \<times> ts" where
  "setField field val s =
     (if field < FIELDNUM_MIN \<or> field > FIELDNUM_MAX then (TS_ERR_INVALID_FIELD_NUM, s)
      else if length val > FIELDLENGTH_MAX then (TS_ERR_OUT_OF_RANGE, s)
      else (TS_OK_SUCCESS, s\<lparr>nextWriteField := (nextWriteField s)(field - 1 := val)\<rparr>))"

definition setLatitude :: "cfloat \<Rightarrow> ts \<Rightarrow> int \<times> ts" where
  "setLatitude latitude s = (TS_OK_SUCCESS, s\<lparr>nextWriteLatitude := latitude\<rparr>)"

definition setLongitude :: "cfloat \<Rightarrow> ts \<Rightarrow> int \<times> ts" where
  "setLongitude longitude s = (TS_OK_SUCCESS, s\<lparr>nextWriteLongitude := longitude\<rparr>)"

definition setElevation :: "cfloat \<Rightarrow> ts \<Rightarrow> int \<times> ts" where
  "setElevation elevation s = (TS_OK_SUCCESS, s\<lparr>nextWriteElevation := elevation\<rparr>)"

definition setStatus :: "string \<Rightarrow> ts \<Rightarrow> int \<times> ts" where
  "setStatus status s =
     (if length status > FIELDLENGTH_MAX then (TS_ERR_OUT_OF_RANGE, s)
      else (TS_OK_SUCCESS, s\<lparr>nextWriteStatus := status\<rparr>))"

definition setTwitterTweet :: "string \<Rightarrow> string \<Rightarrow> ts \<Rightarrow> int \<times> ts" where
  "setTwitterTweet twitter tweet s =
     (if length twitter > FIELDLENGTH_MAX \<or> length tweet > FIELDLENGTH_MAX
      then (TS_ERR_OUT_OF_RANGE, s)
      else (TS_OK_SUCCESS, s\<lparr>nextWriteTwitter := twitter, nextWriteTweet := tweet\<rparr>))"

definition setCreatedAt :: "string \<Rightarrow> ts \<Rightarrow> int \<times> ts" where
  "setCreatedAt createdAt s =
     (if length createdAt > FIELDLENGTH_MAX then (TS_ERR_OUT_OF_RANGE, s)
      else (TS_OK_SUCCESS, s\<lparr>nextWriteCreatedAt := createdAt\<rparr>))"

definition field_contentLen :: "ts \<Rightarrow> nat \<Rightarrow> int" where
  "field_contentLen s iField =
     (if length (nextWriteField s iField) > 0
      then 8 + int (length (nextWriteField s iField)) +
           (if iField > 9 then 1 else if iField > 99 then 2 else 0)
      else 0)"

definition getWriteFieldsContentLength :: "ts \<Rightarrow> int" where
  "getWriteFieldsContentLength s =
     (let contentLen = sum_list (map (field_contentLen s) [0..<FIELDNUM_MAX]);
          contentLen = (if \<not> isnan (nextWriteLatitude s)
                        then contentLen + 5 + int (length (as_String (nextWriteLatitude s)))
                        else contentLen);
          contentLen = (if \<not> isnan (nextWriteLongitude s)
                        then contentLen + 6 + int (length (as_String (nextWriteLongitude s)))
                        else contentLen);
          contentLen = (if \<not> isnan (nextWriteElevation s)
                        then contentLen + 11 + int (length (as_String (nextWriteElevation s)))
                        else contentLen);
          contentLen = (if length (nextWriteStatus s) > 0
                        then contentLen + 8 + int (length (nextWriteStatus s)) else contentLen);
          contentLen = (if length (nextWriteTwitter s) > 0
                        then contentLen + 9 + int (length (nextWriteTwitter s)) else contentLen);
          contentLen = (if length (nextWriteTweet s) > 0
                        then contentLen + 7 + int (length (nextWriteTweet s)) else contentLen);
          contentLen = (if length (nextWriteCreatedAt s) > 0
                        then contentLen + 12 + int (length (nextWriteCreatedAt s)) else contentLen)
      in if contentLen = 0 then 0 else contentLen + 13)"

text \<open>The body of \<open>writeFields\<close>: every item that is present is written as its pieces, with
  an ampersand in front unless it is the first one written (\<open>fFirstItem\<close>).\<close>
fun emit :: "bool \<Rightarrow> (bool \<times> string list) list \<Rightarrow> string list" where
  "emit fFirstItem [] = []"
| "emit fFirstItem ((present, ps) # items) =
     (if present then (if fFirstItem then [] else [''&'']) @ ps @ emit False items
      else emit fFirstItem items)"

definition write_items :: "ts \<Rightarrow> (bool \<times> string list) list" where
  "write_items s =
     map (\<lambda>iField. (length (nextWriteField s iField) > 0,
                     [''field'', dec (iField + 1), ''='', nextWriteField s iField]))
       [0..<FIELDNUM_MAX] @
     [(\<not> isnan (nextWriteLatitude s), [''lat='', as_print (nextWriteLatitude s)]),
      (\<not> isnan (nextWriteLongitude s), [''long='', as_print (nextWriteLongitude s)]),
      (\<not> isnan (nextWriteElevation s), [''elevation='', as_print (nextWriteElevation s)]),
      (length (nextWriteStatus s) > 0, [''status='', nextWriteStatus s]),
      (length (nextWriteTwitter s) > 0, [''twitter='', nextWriteTwitter s]),
      (length (nextWriteTweet s) > 0, [''tweet='', nextWriteTweet s]),
      (length (nextWriteCreatedAt s) > 0, [''created_at='', nextWriteCreatedAt s])]"

definition writeFields :: "nat \<Rightarrow> string option \<Rightarrow> ts \<Rightarrow> ts" where
  "writeFields channelNumber writeAPIKey s =
     (case connectThingSpeak s of
        (False, s1) \<Rightarrow> fire (OnWriteFields TS_ERR_CONNECT_FAILED) s1
      | (True, s1) \<Rightarrow>
          let contentLen = getWriteFieldsContentLength s1
          in if contentLen = 0 then fire (OnWriteFields TS_ERR_SETFIELD_NOT_CALLED) s1
             else
               (case then_print
                      (then_print (print_all [''POST /update HTTP/1.1'' @ CRLF] (client s1))
                         (writeHTTPHeader writeAPIKey))
                      (print_all
                         ([''Content-Type: application/x-www-form-urlencoded'' @ CRLF,
                           ''Content-Length: '', dec_int contentLen, CRLF @ CRLF] @
                          emit True (write_items s1) @ [''&headers=false''])) of
                 (False, c) \<Rightarrow>
                   (case abortWriteRaw (s1\<lparr>client := c\<rparr>) of
                      (st, s2) \<Rightarrow> fire (OnWriteFields st) s2)
               | (True, c) \<Rightarrow>
                   finishWrite (emplace F_onWriteFields (resetWriteFields (s1\<lparr>client := c\<rparr>)))))"

definition writeRawSilent :: "nat \<Rightarrow> string \<Rightarrow> string option \<Rightarrow> bool \<Rightarrow> ts \<Rightarrow> ts" where
  "writeRawSilent channelNumber postMessage writeAPIKey silent s =
     (case connectThingSpeak s of
        (False, s1) \<Rightarrow>
          let s2 = s1\<lparr>lastReadStatus := TS_ERR_CONNECT_FAILED\<rparr>
          in if \<not> silent then fire (OnWriteRaw TS_ERR_CONNECT_FAILED) s2 else s2
      | (True, s1) \<Rightarrow>
          let postMessage = postMessage @ ''&headers=false''
          in (case then_print
                     (then_print (print_all [''POST /update HTTP/1.1'' @ CRLF] (client s1))
                        (writeHTTPHeader writeAPIKey))
                     (print_all
                        [''Content-Type: application/x-www-form-urlencoded'' @ CRLF,
                         ''Content-Length: '', dec (length postMessage), CRLF @ CRLF,
                         postMessage]) of
                (False, c) \<Rightarrow>
                  (case abortWriteRaw (s1\<lparr>client := c\<rparr>) of
                     (st, s2) \<Rightarrow>
                       (let s3 = s2\<lparr>lastReadStatus := st\<rparr>
                        in if \<not> silent then fire (OnWriteRaw (lastReadStatus s3)) s3 else s3))
              | (True, c) \<Rightarrow>
                  (let s2 = resetWriteFields (s1\<lparr>client := c\<rparr>);
                       s3 = (if \<not> silent then emplace F_onWriteRaw s2 else s2)
                   in finishWrite s3)))"

definition writeRaw :: "nat \<Rightarrow> string \<Rightarrow> string option \<Rightarrow> ts \<Rightarrow> ts" where
  "writeRaw channelNumber postMessage writeAPIKey s =
     writeRawSilent channelNumber postMessage writeAPIKey False s"

text \<open>\<open>writeField\<close> with a String value; the int and long overloads format the number and
  call this one.\<close>
definition writeField :: "nat \<Rightarrow> nat \<Rightarrow> string \<Rightarrow> string option \<Rightarrow> ts \<Rightarrow> ts" where
  "writeField channelNumber field val writeAPIKey s =
     (if field < FIELDNUM_MIN \<or> field > FIELDNUM_MAX
      then fire (OnWriteField TS_ERR_INVALID_FIELD_NUM) s
      else if length val > FIELDLENGTH_MAX
      then fire (OnWriteField TS_ERR_OUT_OF_RANGE) s
      else
        let postMessage = ''field'' @ dec field @ ''='' @ val
        in writeRawSilent channelNumber postMessage writeAPIKey True (emplace F_onWriteField s))"

definition writeField_int :: "nat \<Rightarrow> nat \<Rightarrow> int \<Rightarrow> string option \<Rightarrow> ts \<Rightarrow> ts" where
  "writeField_int channelNumber field val writeAPIKey s =
     writeField channelNumber field (dec_int val) writeAPIKey s"

section \<open>The sketch's loop\<close>

text \<open>Between two calls of \<open>run\<close> the clock moves and bytes arrive.  A poll is one pass of
  the sketch's loop: the environment's step, then \<open>run\<close>.\<close>
definition arrive :: "32 word \<Rightarrow> string \<Rightarrow> ts \<Rightarrow> ts" where
  "arrive now bytes s = s\<lparr>client := (client s)\<lparr>rx := rx (client s) @ bytes\<rparr>, clock := now\<rparr>"

definition poll :: "32 word \<times> string \<Rightarrow> ts \<Rightarrow> ts" where
  "poll ev s = run (arrive (fst ev) (snd ev) s)"

definition polls :: "(32 word \<times> string) list \<Rightarrow> ts \<Rightarrow> ts" where
  "polls evs s = fold poll evs s"

text \<open>The object after its constructor and \<open>begin(client)\<close>: nothing staged, status 200, an
  empty stack.  The members the constructor leaves unset start at zero here.\<close>
definition begin_ts :: "client_t \<Rightarrow> ts" where
  "begin_ts c =
     \<lparr>client = c, clock = 0, httpresponsetext = [], stackofreturns = [], timestamp1 = 0,
      contentLength = 0, nextWriteField = (\<lambda>_. []), nextWriteLatitude = NAN,
      nextWriteLongitude = NAN, nextWriteElevation = NAN, lastReadStatus = TS_OK_SUCCESS,
      nextWriteStatus = [], nextWriteTwitter = [], nextWriteTweet = [],
      nextWriteCreatedAt = [],
      lastFeed = \<lparr>nextReadField = (\<lambda>_. []), nextReadStatus = [], nextReadLatitude = [],
                  nextReadLongitude = [], nextReadElevation = [], nextReadCreatedAt = []\<rparr>,
      calls = []\<rparr>"

definition idle_client :: client_t where
  "idle_client = \<lparr>rx = [], tx = [], room = 100000, connect_ok = True, connects = 0,
                   flushes = 0, stops = 0\<rparr>"

text \<open>The frames a public operation leaves beneath the decoder and its finisher that pop
  themselves and hand the result to the sketch's callback.  (\<open>F_onWriteField\<close> is not one of
  them: its closure has no \<open>pop\<close>.)\<close>
fun completion_frame :: "frame \<Rightarrow> bool" where
  "completion_frame F_onWriteFields = True"
| "completion_frame F_onWriteRaw = True"
| "completion_frame F_onReadStringField = True"
| "completion_frame F_onReadFloatField = True"
| "completion_frame F_onReadLongField = True"
| "completion_frame F_onReadIntField = True"
| "completion_frame F_readStatus_1 = True"
| "completion_frame F_readCreatedAt_1 = True"
| "completion_frame F_readMultipleFields_1 = True"
| "completion_frame _ = False"

text \<open>Every frame a public operation leaves beneath the decoder and its finisher: the
  completion frames and the closure of \<open>writeField\<close>.\<close>
fun callback_frame :: "frame \<Rightarrow> bool" where
  "callback_frame F_onWriteField = True"
| "callback_frame f = completion_frame f"

section \<open>The requests as text\<close>

text \<open>What a GET and a POST put on the wire when every \<open>print\<close> succeeds: the pieces of
  \<open>readRaw\<close>, and of \<open>writeRawSilent\<close> and \<open>writeFields\<close> up to the body, joined.\<close>
definition get_request :: "nat \<Rightarrow> string \<Rightarrow> string option \<Rightarrow> string" where
  "get_request channelNumber suffixURL readAPIKey =
     concat ([''GET '', ''/channels/'' @ dec channelNumber @ suffixURL, '' HTTP/1.1'' @ CRLF] @
             header_pieces readAPIKey @ [CRLF])"

definition post_head :: "string option \<Rightarrow> string" where
  "post_head writeAPIKey =
     concat ([''POST /update HTTP/1.1'' @ CRLF] @ header_pieces writeAPIKey @
             [''Content-Type: application/x-www-form-urlencoded'' @ CRLF])"

definition post_request :: "string option \<Rightarrow> string \<Rightarrow> string" where
  "post_request writeAPIKey body =
     post_head writeAPIKey @ ''Content-Length: '' @ dec (length body) @ CRLF @ CRLF @ body"

definition writeFields_body :: "ts \<Rightarrow> string" where
  "writeFields_body s = concat (emit True (write_items s)) @ ''&headers=false''"

text \<open>The two renderings of a staged coordinate come from two library routines
  (\<open>String(float)\<close> and \<open>Print::print(float)\<close>).  \<open>floats_ok\<close> says that for every
  coordinate that is set they are of one length and \<open>print\<close> writes at least one byte.\<close>
definition floats_ok :: "ts \<Rightarrow> bool" where
  "floats_ok s =
     list_all (\<lambda>x. isnan x \<or> (as_print x \<noteq> [] \<and> length (as_String x) = length (as_print x)))
       [nextWriteLatitude s, nextWriteLongitude s, nextWriteElevation s]"


text \<open>The bytes an item of \<open>write_items\<close> adds to the count: its pieces and one ampersand.\<close>
definition item_len :: "bool \<times> string list \<Rightarrow> nat" where
  "item_len it = (if fst it then 1 + length (concat (snd it)) else 0)"


section \<open>A response as text\<close>






section \<open>Sample states\<close>

definition write_done_zero :: ts where
  "write_done_zero =
     (begin_ts idle_client)\<lparr>stackofreturns := [F_finishWrite_1, F_onWriteFields],
                             httpresponsetext := ''0''\<rparr>"

definition status_read_issued :: ts where
  "status_read_issued = readStatus 1 None (begin_ts idle_client)"

definition two_fields_staged :: ts where
  "two_fields_staged =
     snd (setField 2 ''3.14000'' (snd (setField 1 ''42'' (begin_ts idle_client))))"


definition sample_head :: string where
  "sample_head = ''HTTP/1.1 200 OK'' @ CRLF @ ''Content-Length: 4'' @ CRLF @ CRLF"

definition not_found_response :: string where
  "not_found_response = ''HTTP/1.1 404 Not Found'' @ CRLF @ ''Content-Length: 0'' @ CRLF @ CRLF"

definition field_read_issued :: ts where
  "field_read_issued = readRaw 1 ''/fields/3/last'' None (begin_ts idle_client)"

definition field_read_done :: ts where
  "field_read_done = polls [(10, sample_head @ ''12.5''), (20, [])] field_read_issued"

definition field_write_issued :: ts where
  "field_write_issued = writeField 1 1 ''42'' (Some ''KEY'') (begin_ts idle_client)"

text \<open>A header block cut off inside its second line: 28 bytes, no blank line.\<close>
definition partial_head :: string where
  "partial_head = ''HTTP/1.1 200 OK'' @ CRLF @ ''Content-Len''"

text \<open>\<open>setElevation(5e9f)\<close> on a fresh object.  \<open>String(5e9f)\<close> is \<open>5000000000.00\<close>
  (\<open>dtostrf\<close> with two decimals); \<open>Print::print(float)\<close> writes \<open>ovf\<close> for every value
  above 4294967040.\<close>
definition elevation_staged :: ts where
  "elevation_staged =
     snd (setElevation (CFloat False ''5000000000.00'' ''ovf'') (begin_ts idle_client))"

section \<open>Basic facts\<close>

lemmas ts_codes =
  TS_OK_SUCCESS_def TS_ERR_OUT_OF_RANGE_def TS_ERR_INVALID_FIELD_NUM_def
  TS_ERR_SETFIELD_NOT_CALLED_def TS_ERR_CONNECT_FAILED_def TS_ERR_UNEXPECTED_FAIL_def
  TS_ERR_BAD_RESPONSE_def TS_ERR_TIMEOUT_def TS_ERR_NOT_INSERTED_def
  FIELDNUM_MIN_def FIELDNUM_MAX_def FIELDLENGTH_MAX_def TIMEOUT_MS_SERVERRESPONSE_def

lemmas ts_basic =
  pop_def emplace_def fire_def getLastReadStatus_def millis_def emptyStream_def
  cstop_def cflush_def available_def

lemma polls_Nil [simp]: "polls [] s = s"
  by (simp add: polls_def)

lemma polls_Cons [simp]: "polls (ev # evs) s = polls evs (poll ev s)"
  by (simp add: polls_def)

lemma polls_append: "polls (evs @ evs') s = polls evs' (polls evs s)"
  by (simp add: polls_def)

lemma poll_top:
  "stackofreturns s = f # rest \<Longrightarrow> poll (now, bytes) s = invoke f (arrive now bytes s)"
  by (simp add: poll_def run_def arrive_def)

lemma completion_poll:
  assumes "completion_frame f" and "stackofreturns s = f # rest"
  shows "stackofreturns (poll ev s) = rest"
    and "lastReadStatus (poll ev s) = lastReadStatus s"
    and "stops (client (poll ev s)) = stops (client s)"
    and "httpresponsetext s = [] \<Longrightarrow> httpresponsetext (poll ev s) = []"
  using assms
  by (cases f; cases ev;
      simp add: poll_top arrive_def ts_basic ts_codes Let_def readStatus_1_def
        readCreatedAt_1_def readMultipleFields_1_def)+

lemma completion_drain:
  assumes "list_all completion_frame cbs" and "stackofreturns s = cbs @ rest"
    and "length evs = length cbs"
  shows "stackofreturns (polls evs s) = rest
       \<and> lastReadStatus (polls evs s) = lastReadStatus s
       \<and> stops (client (polls evs s)) = stops (client s)
       \<and> (httpresponsetext s = [] \<longrightarrow> httpresponsetext (polls evs s) = [])"
  using assms
proof (induction cbs arbitrary: s evs)
  case Nil
  then show ?case by simp
next
  case (Cons f cbs)
  then obtain ev evs' where evs: "evs = ev # evs'" "length evs' = length cbs"
    by (cases evs) auto
  from Cons.prems have f: "completion_frame f" "stackofreturns s = f # (cbs @ rest)"
    and cbs: "list_all completion_frame cbs" by auto
  note step = completion_poll[OF f]
  from Cons.IH[OF cbs step(1) evs(2)] step(2,3,4) evs(1) show ?case
    by simp
qed

lemma timeout_step:
  assumes "stackofreturns s = aw # rest"
    and "aw = F_getHTTPResponse \<and> length (rx (client s) @ bytes) < 17
       \<or> aw = F_getHTTPResponse_1 \<and> int (length (rx (client s) @ bytes)) < contentLength s"
    and "now - timestamp1 s > 5000"
  shows "poll (now, bytes) s =
         (arrive now bytes s)\<lparr>stackofreturns := rest, lastReadStatus := - 304\<rparr>"
  using assms
  by (auto simp: poll_top arrive_def getHTTPResponse_def getHTTPResponse_1_def ts_basic ts_codes)

lemma finisher_step:
  assumes "stackofreturns s = fin # rest"
    and "fin = F_readRaw_1 \<or> fin = F_finishWrite_1"
    and "lastReadStatus s \<noteq> 200"
  shows "stackofreturns (poll ev s) = rest"
    and "lastReadStatus (poll ev s) = lastReadStatus s"
    and "stops (client (poll ev s)) = Suc (stops (client s))"
    and "fin = F_readRaw_1 \<or> httpresponsetext s = [] \<Longrightarrow> httpresponsetext (poll ev s) = []"
  using assms
  by (cases ev;
      auto simp: poll_top arrive_def readRaw_1_def finishWrite_1_def ts_basic ts_codes Let_def)+

lemma idle_poll: "stackofreturns s = [] \<Longrightarrow> poll ev s = arrive (fst ev) (snd ev) s"
  by (simp add: poll_def run_def arrive_def)

lemma idle_polls:
  assumes "stackofreturns s = []"
  shows "stackofreturns (polls evs s) = [] \<and> lastReadStatus (polls evs s) = lastReadStatus s
       \<and> httpresponsetext (polls evs s) = httpresponsetext s
       \<and> stops (client (polls evs s)) = stops (client s)"
  using assms
proof (induction evs arbitrary: s)
  case Nil
  then show ?case by simp
next
  case (Cons ev evs)
  note step = idle_poll[OF Cons.prems, of ev]
  have "stackofreturns (poll ev s) = []" using Cons.prems by (simp add: step arrive_def)
  from Cons.IH[OF this] show ?case by (simp add: step arrive_def)
qed

lemma callback_poll:
  assumes "callback_frame f" and "stackofreturns s = f # rest"
  shows "lastReadStatus (poll ev s) = lastReadStatus s"
    and "stops (client (poll ev s)) = stops (client s)"
    and "httpresponsetext s = [] \<Longrightarrow> httpresponsetext (poll ev s) = []"
    and "stackofreturns (poll ev s) = rest \<or> stackofreturns (poll ev s) = f # rest"
  using assms
  by (cases f; cases ev;
      simp add: poll_top arrive_def ts_basic ts_codes Let_def readStatus_1_def
        readCreatedAt_1_def readMultipleFields_1_def)+

lemma callbacks_polls:
  assumes "list_all callback_frame (stackofreturns s)"
  shows "lastReadStatus (polls evs s) = lastReadStatus s
       \<and> stops (client (polls evs s)) = stops (client s)
       \<and> (httpresponsetext s = [] \<longrightarrow> httpresponsetext (polls evs s) = [])"
  using assms
proof (induction evs arbitrary: s)
  case Nil
  then show ?case by simp
next
  case (Cons ev evs)
  show ?case
  proof (cases "stackofreturns s")
    case Nil
    from idle_polls[OF Nil, of "ev # evs"] show ?thesis by simp
  next
    case (Cons f rest)
    with Cons.prems have f: "callback_frame f" and rest: "list_all callback_frame rest" by simp_all
    note step = callback_poll[OF f Cons, of ev]
    from step(4) f rest have "list_all callback_frame (stackofreturns (poll ev s))" by auto
    from Cons.IH[OF this] step(1,2,3) show ?thesis by simp
  qed
qed

lemma completion_drain_all:
  assumes "list_all completion_frame cbs" and "stackofreturns s = cbs"
    and "length cbs \<le> length evs"
  shows "stackofreturns (polls evs s) = []"
proof -
  let ?a = "take (length cbs) evs" and ?b = "drop (length cbs) evs"
  have len: "length ?a = length cbs" using assms(3) by simp
  have st: "stackofreturns s = cbs @ []" using assms(2) by simp
  from completion_drain[OF assms(1) st len] have "stackofreturns (polls ?a s) = []" by simp
  from idle_polls[OF this, of ?b] have "stackofreturns (polls ?b (polls ?a s)) = []"
    by simp
  moreover have "polls evs s = polls ?b (polls ?a s)"
    using polls_append[of ?a ?b s] by simp
  ultimately show ?thesis by simp
qed

lemma bad_header_step:
  assumes "stackofreturns s = F_getHTTPResponse # rest"
    and "17 \<le> length (rx (client s) @ bytes)"
    and "find_str ''HTTP/1.1'' (rx (client s) @ bytes) = Some r1"
    and "parseInt_str r1 = (200, r2)"
    and "find_str ''Content-Length:'' r2 = None"
  shows "poll (now, bytes) s =
         (arrive now bytes s)\<lparr>client := (client s)\<lparr>rx := []\<rparr>, lastReadStatus := - 303,
            stackofreturns := rest\<rparr>"
  using assms
  by (simp add: poll_top arrive_def getHTTPResponse_def cfind_def cparseInt_def ts_basic ts_codes)

section \<open>Sending a request\<close>

declare dec.simps [simp del]

lemma print_all_ok:
  "\<forall>p \<in> set ps. p \<noteq> [] \<Longrightarrow> length (concat ps) \<le> room c \<Longrightarrow>
   print_all ps c = (True, c\<lparr>tx := tx c @ concat ps, room := room c - length (concat ps)\<rparr>)"
proof (induction ps arbitrary: c)
  case Nil
  then show ?case by simp
next
  case (Cons p ps)
  then have p: "p \<noteq> []" "length p \<le> room c" by auto
  have step: "cprint p c = (length p, c\<lparr>tx := tx c @ p, room := room c - length p\<rparr>)"
    using p by (simp add: cprint_def min_def Let_def)
  show ?case using Cons p by (simp add: step)
qed

lemma print_all_append:
  "print_all (ps @ qs) c = then_print (print_all ps c) (print_all qs)"
  by (induction ps arbitrary: c) (auto simp: then_print_def split: prod.splits)

lemma writeHTTPHeader_eq: "writeHTTPHeader k = print_all (header_pieces k)"
  by (rule ext) (simp add: writeHTTPHeader_def)

lemma dec_nonempty: "dec n \<noteq> []"
  by (subst dec.simps) simp

lemma header_pieces_nonempty: "k \<noteq> Some [] \<Longrightarrow> \<forall>p \<in> set (header_pieces k). p \<noteq> []"
  by (auto simp: header_pieces_def CRLF_def TS_USER_AGENT_def split: option.splits)

lemma getHTTPResponse_wait:
  "length (rx (client s)) < 17 \<Longrightarrow> \<not> clock s - timestamp1 s > 5000 \<Longrightarrow> getHTTPResponse s = s"
  by (simp add: getHTTPResponse_def available_def millis_def TIMEOUT_MS_SERVERRESPONSE_def)

lemma send_eq:
  "then_print (then_print (print_all A c) (writeHTTPHeader k)) (print_all B) =
   print_all (A @ header_pieces k @ B) c"
  by (simp only: writeHTTPHeader_eq print_all_append[symmetric] append_assoc)

lemma finishWrite_issued:
  assumes "length (rx (client s)) < 17"
  shows "finishWrite s =
         s\<lparr>client := (client s)\<lparr>flushes := Suc (flushes (client s))\<rparr>,
           httpresponsetext := [],
           stackofreturns := F_getHTTPResponse # F_finishWrite_1 # stackofreturns s,
           timestamp1 := clock s\<rparr>"
  using assms
  by (simp add: finishWrite_def Let_def ts_basic getHTTPResponse_wait)

lemma header_wait:
  assumes "stackofreturns s = F_getHTTPResponse # rest"
    and "length (rx (client s) @ bytes) < 17"
    and "now - timestamp1 s \<le> 5000"
  shows "poll (now, bytes) s = arrive now bytes s"
  using assms
  by (simp add: poll_top arrive_def getHTTPResponse_def ts_basic ts_codes not_less[symmetric])

lemma header_waits:
  assumes "stackofreturns s = F_getHTTPResponse # rest"
    and "length (rx (client s) @ concat (map snd waits)) < 17"
    and "\<forall>ev \<in> set waits. fst ev - timestamp1 s \<le> 5000"
  shows "stackofreturns (polls waits s) = stackofreturns s
       \<and> httpresponsetext (polls waits s) = httpresponsetext s
       \<and> lastReadStatus (polls waits s) = lastReadStatus s
       \<and> timestamp1 (polls waits s) = timestamp1 s
       \<and> stops (client (polls waits s)) = stops (client s)
       \<and> rx (client (polls waits s)) = rx (client s) @ concat (map snd waits)"
  using assms
proof (induction waits arbitrary: s)
  case Nil
  then show ?case by simp
next
  case (Cons ev waits)
  obtain t b where ev: "ev = (t, b)" by (cases ev)
  from Cons.prems(2) ev have short: "length (rx (client s) @ b) < 17" by simp
  from Cons.prems(3) ev have win: "t - timestamp1 s \<le> 5000" by simp
  note step = header_wait[OF Cons.prems(1) short win]
  let ?s1 = "arrive t b s"
  have s1: "stackofreturns ?s1 = F_getHTTPResponse # rest"
    "length (rx (client ?s1) @ concat (map snd waits)) < 17"
    "\<forall>ev \<in> set waits. fst ev - timestamp1 ?s1 \<le> 5000"
    using Cons.prems ev by (simp_all add: arrive_def)
  from Cons.IH[OF s1] show ?case
    by (simp add: ev step arrive_def)
qed

lemma readRaw_issued:
  assumes "connect_ok (client s)" and "readAPIKey \<noteq> Some []"
    and "length (get_request channelNumber suffixURL readAPIKey) \<le> room (client s)"
    and "length (rx (client s)) < 17"
  shows "readRaw channelNumber suffixURL readAPIKey s =
         s\<lparr>client := (client s)\<lparr>connects := Suc (connects (client s)),
                tx := tx (client s) @ get_request channelNumber suffixURL readAPIKey,
                room := room (client s) - length (get_request channelNumber suffixURL readAPIKey),
                flushes := Suc (flushes (client s))\<rparr>,
           timestamp1 := clock s,
           stackofreturns := F_getHTTPResponse # F_readRaw_1 # stackofreturns s\<rparr>"
proof -
  let ?ps = "[''GET '', ''/channels/'' @ dec channelNumber @ suffixURL, '' HTTP/1.1'' @ CRLF] @
             header_pieces readAPIKey @ [CRLF]"
  let ?s1 = "s\<lparr>client := (client s)\<lparr>connects := Suc (connects (client s))\<rparr>\<rparr>"
  have ne: "\<forall>p \<in> set ?ps. p \<noteq> []"
    using header_pieces_nonempty[OF assms(2)] by (auto simp: CRLF_def)
  have len: "length (concat ?ps) \<le> room (client ?s1)"
    using assms(3) by (simp add: get_request_def)
  have conn: "connectThingSpeak s = (True, ?s1)"
    using assms(1) by (simp add: connectThingSpeak_def cconnect_def)
  have cat: "concat ?ps = get_request channelNumber suffixURL readAPIKey"
    by (simp add: get_request_def)
  show ?thesis
    unfolding readRaw_def
    apply (simp only: conn prod.case bool.case Let_def send_eq print_all_ok[OF ne len] cat)
    using assms(4)
    apply (simp add: ts_basic getHTTPResponse_wait)
    done
qed

lemma status_read_issued_eq:
  "stackofreturns status_read_issued = [F_getHTTPResponse, F_readRaw_1, F_readStatus_1]
   \<and> rx (client status_read_issued) = [] \<and> timestamp1 status_read_issued = 0
   \<and> stops (client status_read_issued) = 0"
proof -
  let ?s = "emplace F_readStatus_1 (begin_ts idle_client)"
  have len: "length (get_request 1 ''/feeds/last.txt?status=true'' None) \<le> room (client ?s)"
    by (simp add: get_request_def header_pieces_def CRLF_def TS_USER_AGENT_def dec.simps
        emplace_def begin_ts_def idle_client_def)
  have pre: "connect_ok (client ?s)" "None \<noteq> Some ([]::string)" "length (rx (client ?s)) < 17"
    by (simp_all add: emplace_def begin_ts_def idle_client_def)
  note eq = readRaw_issued[OF pre(1,2) len pre(3)]
  show ?thesis
    unfolding status_read_issued_def readStatus_def eq
    by (simp add: emplace_def begin_ts_def idle_client_def)
qed

section \<open>A write the server did not insert\<close>

lemma toInt_non_numeric:
  "t = [] \<or> (\<not> isspace (hd t) \<and> \<not> is_digit (hd t) \<and> hd t \<noteq> CHR ''-'' \<and> hd t \<noteq> CHR ''+'')
   \<Longrightarrow> toInt t = 0"
  by (cases t) (auto simp: toInt_def)

text \<open>C8.  When \<open>finishWrite_1\<close> runs with \<open>lastReadStatus\<close> 200, the status becomes -401
  if the response body converts to the integer 0 and stays 200 otherwise; a body that is
  empty or does not start with white space, a sign or a digit converts to 0.  The
  connection is stopped once, and the write's callback frame beneath leaves the status as
  it is.\<close>
theorem finishWrite_1_entry_id:
  assumes "stackofreturns s = F_finishWrite_1 # cb # rest"
    and "cb = F_onWriteField \<or> cb = F_onWriteFields \<or> cb = F_onWriteRaw"
    and "lastReadStatus s = TS_OK_SUCCESS"
  shows "lastReadStatus (run s) =
           (if toInt (httpresponsetext s) = 0 then TS_ERR_NOT_INSERTED else TS_OK_SUCCESS)
       \<and> (httpresponsetext s = []
            \<or> (\<not> isspace (hd (httpresponsetext s)) \<and> \<not> is_digit (hd (httpresponsetext s))
                \<and> hd (httpresponsetext s) \<noteq> CHR ''-'' \<and> hd (httpresponsetext s) \<noteq> CHR ''+'')
          \<longrightarrow> lastReadStatus (run s) = TS_ERR_NOT_INSERTED)
       \<and> lastReadStatus (run (run s)) = lastReadStatus (run s)
       \<and> stackofreturns (run s) = cb # rest
       \<and> stops (client (run s)) = Suc (stops (client s))"
proof -
  have main: "lastReadStatus (run s) =
           (if toInt (httpresponsetext s) = 0 then TS_ERR_NOT_INSERTED else TS_OK_SUCCESS)"
    using assms by (auto simp: run_def finishWrite_1_def ts_basic ts_codes Let_def)
  have rest: "lastReadStatus (run (run s)) = lastReadStatus (run s)
       \<and> stackofreturns (run s) = cb # rest
       \<and> stops (client (run s)) = Suc (stops (client s))"
    using assms by (auto simp: run_def finishWrite_1_def ts_basic ts_codes Let_def)
  have non_numeric: "lastReadStatus (run s) = TS_ERR_NOT_INSERTED"
    if "httpresponsetext s = []
            \<or> (\<not> isspace (hd (httpresponsetext s)) \<and> \<not> is_digit (hd (httpresponsetext s))
                \<and> hd (httpresponsetext s) \<noteq> CHR ''-'' \<and> hd (httpresponsetext s) \<noteq> CHR ''+'')"
    using toInt_non_numeric[OF that] main by simp
  show ?thesis
    apply (intro conjI impI)
        apply (rule main)
       apply (erule non_numeric)
      apply (simp_all only: rest)
    done
qed

theorem finishWrite_1_entry_id_witness:
  "lastReadStatus (run write_done_zero) = - 401
   \<and> lastReadStatus (run (run write_done_zero)) = - 401
   \<and> stackofreturns (run write_done_zero) = [F_onWriteFields]"
proof -
  have a: "stackofreturns write_done_zero = [F_finishWrite_1, F_onWriteFields]"
    unfolding write_done_zero_def by simp
  have b: "lastReadStatus write_done_zero = TS_OK_SUCCESS"
    unfolding write_done_zero_def by (simp add: begin_ts_def)
  have c: "toInt (httpresponsetext write_done_zero) = 0"
    unfolding write_done_zero_def by (simp add: toInt_def isspace_def is_digit_def digit_val_def)
  show ?thesis
    using finishWrite_1_entry_id[OF a _ b] by (simp add: c ts_codes)
qed

section \<open>The status line and the headers\<close>

lemma headers_step:
  assumes "stackofreturns s = F_getHTTPResponse # rest"
    and "17 \<le> length (rx (client s) @ bytes)"
    and "find_str ''HTTP/1.1'' (rx (client s) @ bytes) = Some r1"
    and "parseInt_str r1 = (200, r2)"
    and "find_str ''Content-Length:'' r2 = Some r3"
    and "parseInt_str r3 = (len, r4)"
    and "find_str (CRLF @ CRLF) r4 = Some r5"
  shows "poll (now, bytes) s =
         getHTTPResponse_1
           ((arrive now bytes s)\<lparr>client := (client s)\<lparr>rx := r5\<rparr>, contentLength := len,
              lastReadStatus := 200, timestamp1 := now,
              stackofreturns := F_getHTTPResponse_1 # rest\<rparr>)"
  using assms
  by (simp add: poll_top arrive_def getHTTPResponse_def cfind_def cparseInt_def ts_basic ts_codes)

lemma status_step:
  assumes "stackofreturns s = F_getHTTPResponse # rest"
    and "17 \<le> length (rx (client s) @ bytes)"
    and "find_str ''HTTP/1.1'' (rx (client s) @ bytes) = Some r1"
    and "parseInt_str r1 = (code, r2)" and "code \<noteq> 200"
  shows "poll (now, bytes) s =
         (arrive now bytes s)\<lparr>client := (client s)\<lparr>rx := r2\<rparr>, lastReadStatus := code,
            stackofreturns := rest\<rparr>"
  using assms
  by (simp add: poll_top arrive_def getHTTPResponse_def cfind_def cparseInt_def ts_basic ts_codes)

lemma find_str_suffix: "find_str t x = Some r \<Longrightarrow> suffix r x"
proof (induction x)
  case Nil
  then show ?case by (simp split: if_splits)
next
  case (Cons c cs)
  show ?case
  proof (cases "prefix t (c # cs)")
    case True
    with Cons.prems have "r = drop (length t) (c # cs)" by simp
    then show ?thesis by (simp only: suffix_drop)
  next
    case False
    with Cons.prems have "find_str t cs = Some r" by simp
    from Cons.IH[OF this] show ?thesis by (rule suffix_ConsI)
  qed
qed

lemma find_str_None_suffix: "find_str t x = None \<Longrightarrow> suffix y x \<Longrightarrow> find_str t y = None"
proof (induction x)
  case Nil
  then show ?case by simp
next
  case (Cons c cs)
  from Cons.prems(1) have np: "\<not> prefix t (c # cs)" and rest: "find_str t cs = None"
    by (simp_all split: if_splits)
  from Cons.prems(2) have "y = c # cs \<or> suffix y cs" by (auto simp: suffix_Cons)
  then show ?case
  proof
    assume "y = c # cs"
    with Cons.prems(1) show ?thesis by simp
  next
    assume "suffix y cs"
    from Cons.IH[OF rest this] show ?thesis .
  qed
qed

lemma peekNextDigit_suffix: "suffix (peekNextDigit x) x"
  by (induction x) (auto intro: suffix_ConsI)

lemma parse_digits_suffix: "parse_digits v x = (v', r) \<Longrightarrow> suffix r x"
proof (induction x arbitrary: v)
  case Nil
  then show ?case by simp
next
  case (Cons c cs)
  then show ?case by (auto split: if_splits intro: suffix_ConsI)
qed

lemma parseInt_suffix: "parseInt_str x = (v, r) \<Longrightarrow> suffix r x"
proof (cases "peekNextDigit x")
  case Nil
  assume "parseInt_str x = (v, r)"
  with Nil show ?thesis by (simp add: parseInt_str_def)
next
  case (Cons c cs)
  assume p: "parseInt_str x = (v, r)"
  have "suffix r (c # cs)"
  proof (cases "c = CHR ''-''")
    case True
    with p Cons obtain v' where "parse_digits 0 cs = (v', r)"
      by (auto simp: parseInt_str_def split: prod.splits)
    from parse_digits_suffix[OF this] show ?thesis by (rule suffix_ConsI)
  next
    case False
    with p Cons have "parse_digits 0 (c # cs) = (v, r)" by (simp add: parseInt_str_def)
    then show ?thesis by (rule parse_digits_suffix)
  qed
  moreover have "suffix (c # cs) x" using peekNextDigit_suffix[of x] Cons by simp
  ultimately show ?thesis by (rule suffix_order.trans)
qed

lemma header_incomplete_step:
  assumes "stackofreturns s = F_getHTTPResponse # rest"
    and "17 \<le> length (rx (client s) @ bytes)"
    and "find_str (CRLF @ CRLF) (rx (client s) @ bytes) = None"
  shows "stackofreturns (poll (now, bytes) s) = rest
       \<and> httpresponsetext (poll (now, bytes) s) = httpresponsetext s
       \<and> lastReadStatus (poll (now, bytes) s) =
           (case find_str ''HTTP/1.1'' (rx (client s) @ bytes) of
              None \<Rightarrow> TS_ERR_BAD_RESPONSE
            | Some r1 \<Rightarrow>
                if fst (parseInt_str r1) \<noteq> TS_OK_SUCCESS then fst (parseInt_str r1)
                else TS_ERR_BAD_RESPONSE)"
proof (cases "find_str ''HTTP/1.1'' (rx (client s) @ bytes)")
  case None
  then show ?thesis
    using assms(1,2)
    by (simp add: poll_top arrive_def getHTTPResponse_def cfind_def ts_basic ts_codes)
next
  case (Some r1)
  obtain code r2 where p1: "parseInt_str r1 = (code, r2)" by (cases "parseInt_str r1")
  show ?thesis
  proof (cases "code = 200")
    case False
    from status_step[OF assms(1,2) Some p1 False, of now] False show ?thesis
      by (simp add: Some p1 arrive_def ts_codes)
  next
    case True
    show ?thesis
    proof (cases "find_str ''Content-Length:'' r2")
      case None
      from bad_header_step[OF assms(1,2) Some p1[unfolded True] None, of now] True
      show ?thesis by (simp add: Some p1 arrive_def ts_codes)
    next
      case (Some r3)
      obtain len r4 where p2: "parseInt_str r3 = (len, r4)" by (cases "parseInt_str r3")
      have "suffix r4 r3" using p2 by (rule parseInt_suffix)
      also have "suffix r3 r2" using Some by (rule find_str_suffix)
      also have "suffix r2 r1" using p1 by (rule parseInt_suffix)
      also have "suffix r1 (rx (client s) @ bytes)"
        using \<open>find_str ''HTTP/1.1'' (rx (client s) @ bytes) = Some r1\<close> by (rule find_str_suffix)
      finally have "find_str (CRLF @ CRLF) r4 = None"
        by (rule find_str_None_suffix[OF assms(3)])
      then show ?thesis
        using assms(1,2) \<open>find_str ''HTTP/1.1'' (rx (client s) @ bytes) = Some r1\<close> p1 True Some p2
        by (simp add: poll_top arrive_def getHTTPResponse_def cfind_def cparseInt_def
            ts_basic ts_codes)
    qed
  qed
qed

lemma body_wait:
  assumes "stackofreturns s = F_getHTTPResponse_1 # rest"
    and "int (length (rx (client s) @ bytes)) < contentLength s"
    and "now - timestamp1 s \<le> 5000"
  shows "poll (now, bytes) s = arrive now bytes s"
  using assms
  by (simp add: poll_top arrive_def getHTTPResponse_1_def ts_basic ts_codes not_less[symmetric])



lemma sample_head_parse:
  "find_str ''HTTP/1.1'' (sample_head @ r) = Some ('' 200 OK'' @ CRLF @ ''Content-Length: 4'' @ CRLF @ CRLF @ r)"
  "parseInt_str ('' 200 OK'' @ CRLF @ ''Content-Length: 4'' @ CRLF @ CRLF @ r) = (200, '' OK'' @ CRLF @ ''Content-Length: 4'' @ CRLF @ CRLF @ r)"
  "find_str ''Content-Length:'' ('' OK'' @ CRLF @ ''Content-Length: 4'' @ CRLF @ CRLF @ r) = Some ('' 4'' @ CRLF @ CRLF @ r)"
  "parseInt_str ('' 4'' @ CRLF @ CRLF @ r) = (4, CRLF @ CRLF @ r)"
  "find_str (CRLF @ CRLF) (CRLF @ CRLF @ r) = Some r"
  by (simp_all add: sample_head_def CRLF_def parseInt_str_def is_digit_def digit_val_def to_long_def)

lemma not_found_parse:
  "find_str ''HTTP/1.1'' not_found_response = Some ('' 404 Not Found'' @ CRLF @ ''Content-Length: 0'' @ CRLF @ CRLF)"
  "parseInt_str ('' 404 Not Found'' @ CRLF @ ''Content-Length: 0'' @ CRLF @ CRLF) = (404, '' Not Found'' @ CRLF @ ''Content-Length: 0'' @ CRLF @ CRLF)"
  by (simp_all add: not_found_response_def CRLF_def parseInt_str_def is_digit_def digit_val_def to_long_def)

lemma partial_head_parse:
  "find_str ''HTTP/1.1'' partial_head = Some ('' 200 OK'' @ CRLF @ ''Content-Len'')"
  "parseInt_str ('' 200 OK'' @ CRLF @ ''Content-Len'') = (200, '' OK'' @ CRLF @ ''Content-Len'')"
  "find_str ''Content-Length:'' ('' OK'' @ CRLF @ ''Content-Len'') = None"
  "find_str (CRLF @ CRLF) partial_head = None"
  "length partial_head = 28"
  by (simp_all add: partial_head_def CRLF_def parseInt_str_def is_digit_def digit_val_def
      to_long_def)

lemma parseInt_wraps:
  "parseInt_str ''4294967496 OK'' = (200, '' OK'')"
  "parseInt_str ''4294967300'' = (4, [])"
  "parseInt_str ''2147483648'' = (- 2147483648, [])"
  by (simp_all add: parseInt_str_def is_digit_def digit_val_def to_long_def)

text \<open>C5.  Take a request whose decoder frame is on top of its finisher: a read
  (\<open>readRaw_1\<close> beneath, in any state), or a write issued through \<open>finishWrite\<close> and
  followed by any polls at which fewer than 17 bytes have arrived and the deadline has not
  passed.  At a poll where at least 17 bytes are available (the decoder looks at nothing
  shorter; a status line with its two spaces and the blank line make 17), \<open>HTTP/1.1\<close> is
  found and the number \<open>parseInt\<close> returns after it is not 200, the decoder stores that
  number in \<open>lastReadStatus\<close>, pops itself and reads nothing more: the bytes after the
  number stay in the stream, and \<open>contentLength\<close> and \<open>httpresponsetext\<close> are untouched.
  After the finisher's poll \<open>lastReadStatus\<close> is that number and \<open>httpresponsetext\<close> is
  empty; they stay so through any number of further polls, whatever callback frames the
  operation left beneath (the closure of \<open>writeField\<close> included), and the stack has drained
  once every completion frame has had its poll.\<close>
theorem non_200_status_skips_body:
  assumes "stackofreturns s = F_getHTTPResponse # F_readRaw_1 # cbs
         \<or> (s = polls waits (finishWrite s0) \<and> stackofreturns s0 = cbs
            \<and> length (rx (client s0) @ concat (map snd waits)) < 17
            \<and> (\<forall>ev \<in> set waits. fst ev - clock s0 \<le> TIMEOUT_MS_SERVERRESPONSE))"
    and "17 \<le> length (rx (client s) @ bytes)"
    and "find_str ''HTTP/1.1'' (rx (client s) @ bytes) = Some r1"
    and "parseInt_str r1 = (code, r2)" and "code \<noteq> TS_OK_SUCCESS"
  shows "poll (now, bytes) s =
           (arrive now bytes s)\<lparr>client := (client s)\<lparr>rx := r2\<rparr>, lastReadStatus := code,
              stackofreturns := tl (stackofreturns s)\<rparr>
       \<and> lastReadStatus (polls [(now, bytes), ev] s) = code
       \<and> httpresponsetext (polls [(now, bytes), ev] s) = []
       \<and> stackofreturns (polls [(now, bytes), ev] s) = cbs
       \<and> (list_all callback_frame cbs \<longrightarrow>
            lastReadStatus (polls ((now, bytes) # ev # evs) s) = code
            \<and> httpresponsetext (polls ((now, bytes) # ev # evs) s) = [])
       \<and> (list_all completion_frame cbs \<and> length cbs \<le> length evs \<longrightarrow>
            stackofreturns (polls ((now, bytes) # ev # evs) s) = [])"
proof -
  let ?s1 = "poll (now, bytes) s"
  let ?s2 = "poll ev ?s1"
  have code: "code \<noteq> 200" using assms(5) by (simp add: ts_codes)
  obtain fin where st: "stackofreturns s = F_getHTTPResponse # fin # cbs"
    and fin: "fin = F_readRaw_1 \<or> fin = F_finishWrite_1"
    and empty: "fin = F_readRaw_1 \<or> httpresponsetext s = []"
  proof (rule disjE[OF assms(1)])
    assume "stackofreturns s = F_getHTTPResponse # F_readRaw_1 # cbs"
    then show thesis by (intro that[of F_readRaw_1]) simp_all
  next
    assume w: "s = polls waits (finishWrite s0) \<and> stackofreturns s0 = cbs
            \<and> length (rx (client s0) @ concat (map snd waits)) < 17
            \<and> (\<forall>ev \<in> set waits. fst ev - clock s0 \<le> TIMEOUT_MS_SERVERRESPONSE)"
    then have short: "length (rx (client s0)) < 17" by simp
    note iss = finishWrite_issued[OF short]
    have i: "stackofreturns (finishWrite s0) = F_getHTTPResponse # F_finishWrite_1 # cbs"
      "length (rx (client (finishWrite s0)) @ concat (map snd waits)) < 17"
      "\<forall>ev \<in> set waits. fst ev - timestamp1 (finishWrite s0) \<le> 5000"
      "httpresponsetext (finishWrite s0) = []"
      using w by (simp_all add: iss ts_codes)
    from header_waits[OF i(1,2,3)] i(1,4) w
    have "stackofreturns s = F_getHTTPResponse # F_finishWrite_1 # cbs"
      and "httpresponsetext s = []" by simp_all
    then show thesis by (intro that[of F_finishWrite_1]) simp_all
  qed
  note s1 = status_step[OF st assms(2,3,4) code, of now]
  have st1: "stackofreturns ?s1 = fin # cbs" "lastReadStatus ?s1 \<noteq> 200"
    "lastReadStatus ?s1 = code" "httpresponsetext ?s1 = httpresponsetext s"
    using code by (simp_all add: s1 arrive_def)
  have empty1: "fin = F_readRaw_1 \<or> httpresponsetext ?s1 = []" using empty st1(4) by auto
  note fs = finisher_step[OF st1(1) fin st1(2), of ev]
  have two: "lastReadStatus ?s2 = code" "stackofreturns ?s2 = cbs" "httpresponsetext ?s2 = []"
    using fs(1,2) fs(4)[OF empty1] st1(3) by simp_all
  have later: "lastReadStatus (polls evs ?s2) = code \<and> httpresponsetext (polls evs ?s2) = []"
    if "list_all callback_frame cbs"
    using callbacks_polls[of ?s2 evs] that two by simp
  have drain: "stackofreturns (polls evs ?s2) = []"
    if "list_all completion_frame cbs \<and> length cbs \<le> length evs"
    using completion_drain_all[OF _ two(2), of evs] that by simp
  have eq: "?s1 = (arrive now bytes s)\<lparr>client := (client s)\<lparr>rx := r2\<rparr>, lastReadStatus := code,
              stackofreturns := tl (stackofreturns s)\<rparr>"
    by (simp add: s1 st)
  show ?thesis
    using eq two later drain by simp
qed

theorem non_200_status_skips_body_witness:
  "lastReadStatus (polls [(10, not_found_response), (20, []), (30, [])] status_read_issued) = 404
   \<and> httpresponsetext (polls [(10, not_found_response), (20, []), (30, [])] status_read_issued) = []
   \<and> stackofreturns (polls [(10, not_found_response), (20, []), (30, [])] status_read_issued) = []
   \<and> rx (client (poll (10, not_found_response) status_read_issued))
        = '' Not Found'' @ CRLF @ ''Content-Length: 0'' @ CRLF @ CRLF
   \<and> httpresponsetext write_done_zero = ''0''
   \<and> lastReadStatus
        (polls [(10, not_found_response), (20, []), (30, [])]
           (polls [(5, [])] (finishWrite (write_done_zero\<lparr>stackofreturns := [F_onWriteField]\<rparr>))))
       = 404
   \<and> httpresponsetext
        (polls [(10, not_found_response), (20, []), (30, [])]
           (polls [(5, [])] (finishWrite (write_done_zero\<lparr>stackofreturns := [F_onWriteField]\<rparr>))))
       = []"
proof -
  let ?pre = "write_done_zero\<lparr>stackofreturns := [F_onWriteField]\<rparr>"
  let ?w = "polls [(5, [])] (finishWrite ?pre)"
  have len: "17 \<le> length (rx (client status_read_issued) @ not_found_response)"
    by (simp add: status_read_issued_eq not_found_response_def)
  have f: "find_str ''HTTP/1.1'' (rx (client status_read_issued) @ not_found_response)
           = Some ('' 404 Not Found'' @ CRLF @ ''Content-Length: 0'' @ CRLF @ CRLF)"
    by (simp add: status_read_issued_eq not_found_parse)
  have st: "stackofreturns status_read_issued = F_getHTTPResponse # F_readRaw_1 # [F_readStatus_1]
      \<or> (status_read_issued = polls [] (finishWrite s0) \<and> stackofreturns s0 = [F_readStatus_1]
            \<and> length (rx (client s0) @ concat (map snd [])) < 17
            \<and> (\<forall>ev \<in> set []. fst ev - clock s0 \<le> TIMEOUT_MS_SERVERRESPONSE))" for s0
    by (simp add: status_read_issued_eq)
  have c: "(404::int) \<noteq> TS_OK_SUCCESS" by (simp add: ts_codes)
  note t = non_200_status_skips_body[OF st len f not_found_parse(2) c,
      where now = 10 and ev = "(20, [])" and evs = "[(30, [])]"]
  have t1: "poll (10, not_found_response) status_read_issued =
       (arrive 10 not_found_response status_read_issued)
         \<lparr>client := (client status_read_issued)
            \<lparr>rx := '' Not Found'' @ CRLF @ ''Content-Length: 0'' @ CRLF @ CRLF\<rparr>,
          lastReadStatus := 404, stackofreturns := tl (stackofreturns status_read_issued)\<rparr>"
    using t[THEN conjunct1] by simp
  have r: "rx (client (poll (10, not_found_response) status_read_issued))
        = '' Not Found'' @ CRLF @ ''Content-Length: 0'' @ CRLF @ CRLF"
    unfolding t1 by simp
  have t2: "lastReadStatus (polls [(10, not_found_response), (20, []), (30, [])] status_read_issued) = 404
   \<and> httpresponsetext (polls [(10, not_found_response), (20, []), (30, [])] status_read_issued) = []
   \<and> stackofreturns (polls [(10, not_found_response), (20, []), (30, [])] status_read_issued) = []"
    using t[THEN conjunct2] by simp
  have pre: "rx (client write_done_zero) = []" "clock write_done_zero = 0"
    "stackofreturns ?pre = [F_onWriteField]" "httpresponsetext write_done_zero = ''0''"
    by (simp_all add: write_done_zero_def begin_ts_def idle_client_def)
  have wst: "stackofreturns ?w = F_getHTTPResponse # F_readRaw_1 # [F_onWriteField]
      \<or> (?w = polls [(5, [])] (finishWrite ?pre) \<and> stackofreturns ?pre = [F_onWriteField]
            \<and> length (rx (client ?pre) @ concat (map snd [(5::32 word, [])])) < 17
            \<and> (\<forall>ev \<in> set [(5::32 word, [])]. fst ev - clock ?pre \<le> TIMEOUT_MS_SERVERRESPONSE))"
    by (simp add: pre ts_codes del: polls_Cons polls_Nil)
  have wrx: "rx (client ?w) = []"
    using header_waits[of "finishWrite ?pre" "[F_finishWrite_1, F_onWriteField]" "[(5, [])]"]
    by (simp add: finishWrite_issued pre)
  have wlen: "17 \<le> length (rx (client ?w) @ not_found_response)"
    unfolding wrx by (simp add: not_found_response_def)
  have wf: "find_str ''HTTP/1.1'' (rx (client ?w) @ not_found_response)
           = Some ('' 404 Not Found'' @ CRLF @ ''Content-Length: 0'' @ CRLF @ CRLF)"
    unfolding wrx by (simp add: not_found_parse)
  note u = non_200_status_skips_body[OF wst wlen wf not_found_parse(2) c,
      where now = 10 and ev = "(20, [])" and evs = "[(30, [])]"]
  have u2: "lastReadStatus (polls [(10, not_found_response), (20, []), (30, [])] ?w) = 404
   \<and> httpresponsetext (polls [(10, not_found_response), (20, []), (30, [])] ?w) = []"
    using u[THEN conjunct2] by simp
  show ?thesis
    using r t2 u2 pre(4) by (simp del: polls_Cons polls_Nil)
qed


lemma getHTTPResponse_1_timestamp: "timestamp1 (getHTTPResponse_1 s) = timestamp1 s"
  by (simp add: getHTTPResponse_1_def ts_basic Let_def)


text \<open>C9.  At a poll where the decoder finds the status 200, the Content-Length header and
  the blank line, \<open>timestamp1\<close> becomes the current clock value before the body-await step
  runs, whatever it was before.  So if the body is not complete yet the frame waits, and it
  keeps waiting at every later poll that still lacks bytes and comes no more than 5000 ms
  after that moment.\<close>
theorem header_end_rearms_deadline:
  assumes "stackofreturns s = F_getHTTPResponse # rest"
    and "17 \<le> length (rx (client s) @ bytes)"
    and "find_str ''HTTP/1.1'' (rx (client s) @ bytes) = Some r1"
    and "parseInt_str r1 = (TS_OK_SUCCESS, r2)"
    and "find_str ''Content-Length:'' r2 = Some r3"
    and "parseInt_str r3 = (len, r4)"
    and "find_str (CRLF @ CRLF) r4 = Some r5"
  shows "timestamp1 (poll (now, bytes) s) = now
       \<and> (int (length r5) < len \<longrightarrow>
            poll (now, bytes) s =
              (arrive now bytes s)\<lparr>client := (client s)\<lparr>rx := r5\<rparr>, contentLength := len,
                 lastReadStatus := TS_OK_SUCCESS, timestamp1 := now,
                 stackofreturns := F_getHTTPResponse_1 # rest\<rparr>)
       \<and> (\<forall>now' bytes'.
             int (length (r5 @ bytes')) < len \<and> now' - now \<le> TIMEOUT_MS_SERVERRESPONSE \<longrightarrow>
             poll (now', bytes') (poll (now, bytes) s) = arrive now' bytes' (poll (now, bytes) s))"
proof -
  let ?w = "(arrive now bytes s)\<lparr>client := (client s)\<lparr>rx := r5\<rparr>, contentLength := len,
              lastReadStatus := 200, timestamp1 := now,
              stackofreturns := F_getHTTPResponse_1 # rest\<rparr>"
  have p4: "parseInt_str r1 = (200, r2)" using assms(4) by (simp add: ts_codes)
  note hs = headers_step[OF assms(1,2,3) p4 assms(5,6,7), of now]
  have ts: "timestamp1 (poll (now, bytes) s) = now"
    by (simp add: hs getHTTPResponse_1_timestamp)
  have wait: "poll (now, bytes) s = ?w" if "int (length r5) < len"
    using that by (simp add: hs getHTTPResponse_1_def arrive_def ts_basic ts_codes)
  have later: "poll (now', bytes') (poll (now, bytes) s) = arrive now' bytes' (poll (now, bytes) s)"
    if "int (length (r5 @ bytes')) < len \<and> now' - now \<le> TIMEOUT_MS_SERVERRESPONSE"
    for now' bytes'
  proof -
    from that have short: "int (length r5) < len" by simp
    show ?thesis
      unfolding wait[OF short]
      by (rule body_wait[where rest = rest]) (use that in \<open>simp_all add: ts_codes\<close>)
  qed
  show ?thesis using ts wait later by (simp add: ts_codes)
qed

theorem header_end_rearms_deadline_witness:
  "timestamp1 (poll (4000, sample_head) status_read_issued) = 4000
   \<and> 9000 - timestamp1 status_read_issued > TIMEOUT_MS_SERVERRESPONSE
   \<and> poll (9000, ''12'') (poll (4000, sample_head) status_read_issued)
       = arrive 9000 ''12'' (poll (4000, sample_head) status_read_issued)"
proof -
  have len: "17 \<le> length (rx (client status_read_issued) @ sample_head)"
    by (simp add: status_read_issued_eq sample_head_def)
  have f: "find_str ''HTTP/1.1'' (rx (client status_read_issued) @ sample_head)
           = Some ('' 200 OK'' @ CRLF @ ''Content-Length: 4'' @ CRLF @ CRLF @ [])"
    using sample_head_parse(1)[of "[]"] by (simp add: status_read_issued_eq)
  have st: "stackofreturns status_read_issued = F_getHTTPResponse # [F_readRaw_1, F_readStatus_1]"
    by (simp add: status_read_issued_eq)
  have p: "parseInt_str ('' 200 OK'' @ CRLF @ ''Content-Length: 4'' @ CRLF @ CRLF @ [])
      = (TS_OK_SUCCESS, '' OK'' @ CRLF @ ''Content-Length: 4'' @ CRLF @ CRLF @ [])"
    using sample_head_parse(2)[of "[]"] by (simp add: ts_codes)
  note t = header_end_rearms_deadline[OF st len f p sample_head_parse(3,4,5), of 4000]
  have a: "timestamp1 (poll (4000, sample_head) status_read_issued) = 4000"
    using t by simp
  have b: "poll (9000, ''12'') (poll (4000, sample_head) status_read_issued)
       = arrive 9000 ''12'' (poll (4000, sample_head) status_read_issued)"
    using t[THEN conjunct2, THEN conjunct2, rule_format, of "''12''" 9000]
    by (simp add: ts_codes)
  show ?thesis using a b by (simp add: status_read_issued_eq ts_codes)
qed

section \<open>Clearing the response buffer\<close>

lemma field_read_issued_eq:
  "field_read_issued =
     (begin_ts idle_client)\<lparr>client := idle_client\<lparr>connects := 1,
          tx := get_request 1 ''/fields/3/last'' None,
          room := 100000 - length (get_request 1 ''/fields/3/last'' None),
          flushes := 1\<rparr>,
        stackofreturns := [F_getHTTPResponse, F_readRaw_1]\<rparr>"
proof -
  let ?s = "begin_ts idle_client"
  have len: "length (get_request 1 ''/fields/3/last'' None) \<le> room (client ?s)"
    by (simp add: get_request_def header_pieces_def CRLF_def TS_USER_AGENT_def dec.simps
        begin_ts_def idle_client_def)
  have pre: "connect_ok (client ?s)" "None \<noteq> Some ([]::string)" "length (rx (client ?s)) < 17"
    by (simp_all add: begin_ts_def idle_client_def)
  note eq = readRaw_issued[OF pre(1,2) len pre(3)]
  show ?thesis
    unfolding field_read_issued_def eq
    by (simp add: begin_ts_def idle_client_def)
qed

lemma field_read_done_eq:
  "field_read_done =
     (begin_ts idle_client)\<lparr>client := idle_client\<lparr>connects := 1,
          tx := get_request 1 ''/fields/3/last'' None,
          room := 100000 - length (get_request 1 ''/fields/3/last'' None),
          flushes := 1, stops := 1\<rparr>,
        clock := 20, timestamp1 := 10, contentLength := 4,
        httpresponsetext := ''12.5''\<rparr>"
proof -
  let ?s = field_read_issued
  have st: "stackofreturns ?s = F_getHTTPResponse # [F_readRaw_1]"
    and rx: "rx (client ?s) = []"
    by (simp_all add: field_read_issued_eq begin_ts_def idle_client_def)
  have len: "17 \<le> length (rx (client ?s) @ sample_head @ ''12.5'')"
    by (simp add: rx sample_head_def)
  have f: "find_str ''HTTP/1.1'' (rx (client ?s) @ sample_head @ ''12.5'')
           = Some ('' 200 OK'' @ CRLF @ ''Content-Length: 4'' @ CRLF @ CRLF @ ''12.5'')"
    using sample_head_parse(1)[of "''12.5''"] by (simp add: rx)
  note hs = headers_step[OF st len f sample_head_parse(2,3,4,5), of 10]
  have p1: "poll (10, sample_head @ ''12.5'') ?s =
      ?s\<lparr>client := (client ?s)\<lparr>rx := []\<rparr>, clock := 10, timestamp1 := 10,
         contentLength := 4, lastReadStatus := 200, httpresponsetext := ''12.5'',
         stackofreturns := [F_readRaw_1]\<rparr>"
    unfolding hs by (simp add: getHTTPResponse_1_def arrive_def ts_basic Let_def)
  show ?thesis
    unfolding field_read_done_def polls_Cons polls_Nil p1
    by (simp add: field_read_issued_eq poll_top arrive_def readRaw_1_def ts_basic ts_codes
        begin_ts_def idle_client_def Let_def)
qed

text \<open>C7 as stated fails for reads.  After a read that ended with status 200 and the body
  \<open>12.5\<close>, the next \<open>readRaw\<close> is awaiting its response while \<open>httpresponsetext\<close> still
  holds \<open>12.5\<close>.\<close>
theorem read_keeps_old_buffer_counterexample:
  "httpresponsetext field_read_done = ''12.5''
   \<and> stackofreturns field_read_done = []
   \<and> stackofreturns (readRaw 1 ''/fields/3/last'' None field_read_done)
       = [F_getHTTPResponse, F_readRaw_1]
   \<and> httpresponsetext (readRaw 1 ''/fields/3/last'' None field_read_done) = ''12.5''"
proof -
  let ?s = field_read_done
  have len: "length (get_request 1 ''/fields/3/last'' None) \<le> room (client ?s)"
    by (simp add: field_read_done_eq get_request_def header_pieces_def CRLF_def
        TS_USER_AGENT_def dec.simps idle_client_def)
  have pre: "connect_ok (client ?s)" "None \<noteq> Some ([]::string)" "length (rx (client ?s)) < 17"
    by (simp_all add: field_read_done_eq idle_client_def)
  note eq = readRaw_issued[OF pre(1,2) len pre(3)]
  show ?thesis
    unfolding eq by (simp add: field_read_done_eq begin_ts_def)
qed

text \<open>C7, amended.  \<open>finishWrite\<close>, which every write goes through, empties
  \<open>httpresponsetext\<close> before the request begins awaiting.  \<open>readRaw\<close> does not: while a
  read is awaiting, the buffer is what the previous operation left.  It is replaced by the
  new body when the body-await step completes, and \<open>readRaw_1\<close> empties it whenever the
  request ends with a status other than 200.\<close>
theorem response_buffer_clearing:
  "(length (rx (client s)) < 17 \<longrightarrow>
      httpresponsetext (finishWrite s) = []
      \<and> stackofreturns (finishWrite s) = F_getHTTPResponse # F_finishWrite_1 # stackofreturns s)
   \<and> (connect_ok (client s) \<and> readAPIKey \<noteq> Some []
        \<and> length (get_request channelNumber suffixURL readAPIKey) \<le> room (client s)
        \<and> length (rx (client s)) < 17 \<longrightarrow>
      httpresponsetext (readRaw channelNumber suffixURL readAPIKey s) = httpresponsetext s
      \<and> stackofreturns (readRaw channelNumber suffixURL readAPIKey s)
          = F_getHTTPResponse # F_readRaw_1 # stackofreturns s)
   \<and> (stackofreturns s = F_getHTTPResponse_1 # rest
        \<and> contentLength s \<le> int (length (rx (client s))) \<longrightarrow>
      httpresponsetext (run s) = take (nat (contentLength s)) (rx (client s)))
   \<and> (stackofreturns s = F_readRaw_1 # rest \<longrightarrow>
      httpresponsetext (run s) = (if lastReadStatus s = TS_OK_SUCCESS then httpresponsetext s else []))"
proof -
  have a: "length (rx (client s)) < 17 \<longrightarrow>
      httpresponsetext (finishWrite s) = []
      \<and> stackofreturns (finishWrite s) = F_getHTTPResponse # F_finishWrite_1 # stackofreturns s"
    by (simp add: finishWrite_issued)
  have b: "connect_ok (client s) \<and> readAPIKey \<noteq> Some []
        \<and> length (get_request channelNumber suffixURL readAPIKey) \<le> room (client s)
        \<and> length (rx (client s)) < 17 \<longrightarrow>
      httpresponsetext (readRaw channelNumber suffixURL readAPIKey s) = httpresponsetext s
      \<and> stackofreturns (readRaw channelNumber suffixURL readAPIKey s)
          = F_getHTTPResponse # F_readRaw_1 # stackofreturns s"
  proof
    assume "connect_ok (client s) \<and> readAPIKey \<noteq> Some []
        \<and> length (get_request channelNumber suffixURL readAPIKey) \<le> room (client s)
        \<and> length (rx (client s)) < 17"
    then have eq: "readRaw channelNumber suffixURL readAPIKey s =
         s\<lparr>client := (client s)\<lparr>connects := Suc (connects (client s)),
                tx := tx (client s) @ get_request channelNumber suffixURL readAPIKey,
                room := room (client s) - length (get_request channelNumber suffixURL readAPIKey),
                flushes := Suc (flushes (client s))\<rparr>,
           timestamp1 := clock s,
           stackofreturns := F_getHTTPResponse # F_readRaw_1 # stackofreturns s\<rparr>"
      by (intro readRaw_issued) simp_all
    show "httpresponsetext (readRaw channelNumber suffixURL readAPIKey s) = httpresponsetext s
      \<and> stackofreturns (readRaw channelNumber suffixURL readAPIKey s)
          = F_getHTTPResponse # F_readRaw_1 # stackofreturns s"
      unfolding eq by simp
  qed
  have c: "stackofreturns s = F_getHTTPResponse_1 # rest
        \<and> contentLength s \<le> int (length (rx (client s))) \<longrightarrow>
      httpresponsetext (run s) = take (nat (contentLength s)) (rx (client s))"
    by (simp add: run_def getHTTPResponse_1_def ts_basic Let_def)
  have d: "stackofreturns s = F_readRaw_1 # rest \<longrightarrow>
      httpresponsetext (run s) =
        (if lastReadStatus s = TS_OK_SUCCESS then httpresponsetext s else [])"
    by (simp add: run_def readRaw_1_def ts_basic Let_def)
  show ?thesis
    by (rule conjI[OF a conjI[OF b conjI[OF c d]]])
qed

theorem response_buffer_clearing_witness:
  "httpresponsetext (finishWrite field_read_done) = []
   \<and> stackofreturns (finishWrite field_read_done) = [F_getHTTPResponse, F_finishWrite_1]
   \<and> httpresponsetext (readRaw 1 ''/fields/3/last'' None field_read_done) = ''12.5''
   \<and> httpresponsetext
        (run (arrive 20 ''12.5''
               (field_read_done\<lparr>stackofreturns := [F_getHTTPResponse_1, F_readRaw_1],
                                 httpresponsetext := ''old''\<rparr>))) = ''12.5''
   \<and> httpresponsetext
        (run (field_read_done\<lparr>stackofreturns := [F_readRaw_1], lastReadStatus := - 304\<rparr>)) = []"
proof -
  let ?s = field_read_done
  let ?b = "arrive 20 ''12.5''
              (field_read_done\<lparr>stackofreturns := [F_getHTTPResponse_1, F_readRaw_1],
                                httpresponsetext := ''old''\<rparr>)"
  let ?r = "field_read_done\<lparr>stackofreturns := [F_readRaw_1], lastReadStatus := - 304\<rparr>"
  have len: "length (get_request 1 ''/fields/3/last'' None) \<le> room (client ?s)"
    by (simp add: field_read_done_eq get_request_def header_pieces_def CRLF_def
        TS_USER_AGENT_def dec.simps idle_client_def)
  have pre: "connect_ok (client ?s)" "None \<noteq> Some ([]::string)" "length (rx (client ?s)) < 17"
    by (simp_all add: field_read_done_eq idle_client_def)
  have w: "httpresponsetext (finishWrite ?s) = []
      \<and> stackofreturns (finishWrite ?s) = F_getHTTPResponse # F_finishWrite_1 # stackofreturns ?s"
    using response_buffer_clearing[where s = ?s, THEN conjunct1] pre(3) by blast
  have r: "httpresponsetext (readRaw 1 ''/fields/3/last'' None ?s) = httpresponsetext ?s"
    using response_buffer_clearing[where s = ?s and readAPIKey = None and channelNumber = 1
        and suffixURL = "''/fields/3/last''", THEN conjunct2, THEN conjunct1] pre len by blast
  have b: "httpresponsetext (run ?b) = take (nat (contentLength ?b)) (rx (client ?b))"
    using response_buffer_clearing[where s = ?b and rest = "[F_readRaw_1]",
        THEN conjunct2, THEN conjunct2, THEN conjunct1]
    by (simp add: arrive_def field_read_done_eq idle_client_def)
  have f: "httpresponsetext (run ?r) =
      (if lastReadStatus ?r = TS_OK_SUCCESS then httpresponsetext ?r else [])"
    using response_buffer_clearing[where s = ?r and rest = "[]",
        THEN conjunct2, THEN conjunct2, THEN conjunct2]
    by simp
  have bv: "take (nat (contentLength ?b)) (rx (client ?b)) = ''12.5''"
    by (simp add: arrive_def field_read_done_eq idle_client_def)
  have st: "stackofreturns ?s = []" "httpresponsetext ?s = ''12.5''"
    by (simp_all add: field_read_done_eq begin_ts_def)
  show ?thesis
    using w r f unfolding b bv st
    by (simp add: ts_codes)
qed


section \<open>The body of a response\<close>



























section \<open>Input validation\<close>

lemma field_contentLen_client [simp]:
  "field_contentLen (s\<lparr>client := c\<rparr>) = field_contentLen s"
  by (rule ext) (simp add: field_contentLen_def)

lemma contentLength_client_any [simp]:
  "getWriteFieldsContentLength (s\<lparr>client := c\<rparr>) = getWriteFieldsContentLength s"
  by (simp add: getWriteFieldsContentLength_def cong: if_cong)

lemma contentLength_begin: "getWriteFieldsContentLength (begin_ts c) = 0"
proof -
  have f: "field_contentLen (begin_ts c) = (\<lambda>_. 0)"
    by (rule ext) (simp add: field_contentLen_def begin_ts_def)
  have sel: "isnan (nextWriteLatitude (begin_ts c))" "isnan (nextWriteLongitude (begin_ts c))"
    "isnan (nextWriteElevation (begin_ts c))" "nextWriteStatus (begin_ts c) = []"
    "nextWriteTwitter (begin_ts c) = []" "nextWriteTweet (begin_ts c) = []"
    "nextWriteCreatedAt (begin_ts c) = []"
    by (simp_all add: begin_ts_def NAN_def)
  show ?thesis
    by (simp add: getWriteFieldsContentLength_def f sel)
qed

lemma writeFields_nothing_staged:
  assumes "getWriteFieldsContentLength s = 0"
  shows "writeFields channelNumber APIKey s
        = fire (OnWriteFields (if connect_ok (client s) then TS_ERR_SETFIELD_NOT_CALLED
                               else TS_ERR_CONNECT_FAILED))
            (s\<lparr>client := (client s)\<lparr>connects := Suc (connects (client s))\<rparr>\<rparr>)"
  using assms
  by (simp add: writeFields_def connectThingSpeak_def cconnect_def Let_def)

text \<open>C3, amended.  A field number outside 1..8 and a value longer than 255 bytes are
  answered at once with -201 and -101 and nothing else happens: \<open>writeField\<close> only calls
  its callback, \<open>readStringFieldSilent\<close> (under \<open>readStringField\<close> and the typed reads) only
  sets the status and empties the buffer; the client is not touched.  \<open>writeFields\<close> with
  nothing staged is different: it calls \<open>connect\<close> first and reports -210 only when that
  succeeded; it prints nothing.\<close>
theorem validation_errors_and_transport:
  "(field < 1 \<or> 8 < field \<longrightarrow>
      writeField channelNumber field val APIKey s
        = fire (OnWriteField TS_ERR_INVALID_FIELD_NUM) s)
   \<and> (1 \<le> field \<and> field \<le> 8 \<and> 255 < length val \<longrightarrow>
      writeField channelNumber field val APIKey s
        = fire (OnWriteField TS_ERR_OUT_OF_RANGE) s)
   \<and> (field < 1 \<or> 8 < field \<longrightarrow>
      readStringFieldSilent channelNumber field APIKey silent s
        = (if silent then s\<lparr>lastReadStatus := TS_ERR_INVALID_FIELD_NUM, httpresponsetext := []\<rparr>
           else fire (OnReadStringField [])
                  (s\<lparr>lastReadStatus := TS_ERR_INVALID_FIELD_NUM, httpresponsetext := []\<rparr>)))
   \<and> (getWriteFieldsContentLength s = 0 \<and> connect_ok (client s) \<longrightarrow>
      writeFields channelNumber APIKey s
        = fire (OnWriteFields TS_ERR_SETFIELD_NOT_CALLED)
            (s\<lparr>client := (client s)\<lparr>connects := Suc (connects (client s))\<rparr>\<rparr>))"
proof -
  have a: "field < 1 \<or> 8 < field \<longrightarrow>
      writeField channelNumber field val APIKey s
        = fire (OnWriteField TS_ERR_INVALID_FIELD_NUM) s"
    by (simp add: writeField_def ts_codes)
  have b: "1 \<le> field \<and> field \<le> 8 \<and> 255 < length val \<longrightarrow>
      writeField channelNumber field val APIKey s
        = fire (OnWriteField TS_ERR_OUT_OF_RANGE) s"
    by (auto simp: writeField_def ts_codes)
  have c: "field < 1 \<or> 8 < field \<longrightarrow>
      readStringFieldSilent channelNumber field APIKey silent s
        = (if silent then s\<lparr>lastReadStatus := TS_ERR_INVALID_FIELD_NUM, httpresponsetext := []\<rparr>
           else fire (OnReadStringField [])
                  (s\<lparr>lastReadStatus := TS_ERR_INVALID_FIELD_NUM, httpresponsetext := []\<rparr>))"
    by (simp add: readStringFieldSilent_def ts_codes Let_def fire_def)
  have d: "getWriteFieldsContentLength s = 0 \<and> connect_ok (client s) \<longrightarrow>
      writeFields channelNumber APIKey s
        = fire (OnWriteFields TS_ERR_SETFIELD_NOT_CALLED)
            (s\<lparr>client := (client s)\<lparr>connects := Suc (connects (client s))\<rparr>\<rparr>)"
    by (simp add: writeFields_nothing_staged)
  show ?thesis
    by (rule conjI[OF a conjI[OF b conjI[OF c d]]])
qed

text \<open>C3 as stated fails for -210: \<open>writeFields\<close> with nothing staged has called
  \<open>connect\<close> by the time it reports -210, and reports -301 instead when \<open>connect\<close> fails.\<close>
theorem writeFields_connects_first_counterexample:
  "calls (writeFields 1 None (begin_ts idle_client)) = [OnWriteFields (- 210)]
   \<and> connects (client (begin_ts idle_client)) = 0
   \<and> connects (client (writeFields 1 None (begin_ts idle_client))) = 1
   \<and> calls (writeFields 1 None (begin_ts (idle_client\<lparr>connect_ok := False\<rparr>)))
       = [OnWriteFields (- 301)]"
proof -
  have sel: "connect_ok (client (begin_ts idle_client))"
    "\<not> connect_ok (client (begin_ts (idle_client\<lparr>connect_ok := False\<rparr>)))"
    "connects (client (begin_ts idle_client)) = 0"
    "calls (begin_ts idle_client) = []"
    "calls (begin_ts (idle_client\<lparr>connect_ok := False\<rparr>)) = []"
    by (simp_all add: begin_ts_def idle_client_def)
  show ?thesis
    using writeFields_nothing_staged[where s = "begin_ts idle_client" and channelNumber = 1
        and APIKey = None, OF contentLength_begin]
      writeFields_nothing_staged[where s = "begin_ts (idle_client\<lparr>connect_ok := False\<rparr>)"
        and channelNumber = 1 and APIKey = None, OF contentLength_begin]
    by (simp add: sel fire_def ts_codes)
qed

theorem validation_errors_and_transport_witness:
  "writeField 1 9 ''42'' None (begin_ts idle_client)
     = fire (OnWriteField (- 201)) (begin_ts idle_client)
   \<and> writeField 1 8 (replicate 256 CHR ''x'') None (begin_ts idle_client)
     = fire (OnWriteField (- 101)) (begin_ts idle_client)
   \<and> readStringFieldSilent 1 0 None True (begin_ts idle_client)
     = (begin_ts idle_client)\<lparr>lastReadStatus := - 201, httpresponsetext := []\<rparr>
   \<and> writeFields 1 None (begin_ts idle_client)
     = fire (OnWriteFields (- 210))
         ((begin_ts idle_client)\<lparr>client := (client (begin_ts idle_client))\<lparr>connects := Suc (connects (client (begin_ts idle_client)))\<rparr>\<rparr>)"
proof -
  note t = validation_errors_and_transport
  have a: "writeField 1 9 ''42'' None (begin_ts idle_client)
     = fire (OnWriteField TS_ERR_INVALID_FIELD_NUM) (begin_ts idle_client)"
    using t[where field = 9, THEN conjunct1] by simp
  have b: "writeField 1 8 (replicate 256 CHR ''x'') None (begin_ts idle_client)
     = fire (OnWriteField TS_ERR_OUT_OF_RANGE) (begin_ts idle_client)"
    using t[where field = 8 and val = "replicate 256 CHR ''x''", THEN conjunct2, THEN conjunct1]
    by simp
  have c: "readStringFieldSilent 1 0 None True (begin_ts idle_client)
     = (begin_ts idle_client)\<lparr>lastReadStatus := TS_ERR_INVALID_FIELD_NUM, httpresponsetext := []\<rparr>"
    using t[where field = 0 and silent = True, THEN conjunct2, THEN conjunct2, THEN conjunct1]
    by simp
  have d: "writeFields 1 None (begin_ts idle_client)
     = fire (OnWriteFields TS_ERR_SETFIELD_NOT_CALLED)
         ((begin_ts idle_client)\<lparr>client := (client (begin_ts idle_client))\<lparr>connects := Suc (connects (client (begin_ts idle_client)))\<rparr>\<rparr>)"
    using t[where s = "begin_ts idle_client", THEN conjunct2, THEN conjunct2, THEN conjunct2]
      contentLength_begin[of idle_client]
    by (simp add: begin_ts_def idle_client_def)
  show ?thesis using a b c d by (simp only: ts_codes)
qed

section \<open>The stack across a request cycle\<close>

lemma writeRawSilent_issued:
  assumes "connect_ok (client s)" and "writeAPIKey \<noteq> Some []"
    and "length (post_request writeAPIKey (postMessage @ ''&headers=false'')) \<le> room (client s)"
    and "length (rx (client s)) < 17"
  shows "writeRawSilent channelNumber postMessage writeAPIKey silent s =
         (resetWriteFields s)
           \<lparr>client := (client s)\<lparr>connects := Suc (connects (client s)),
               tx := tx (client s) @ post_request writeAPIKey (postMessage @ ''&headers=false''),
               room := room (client s)
                  - length (post_request writeAPIKey (postMessage @ ''&headers=false'')),
               flushes := Suc (flushes (client s))\<rparr>,
            httpresponsetext := [],
            stackofreturns := F_getHTTPResponse # F_finishWrite_1 #
               (if silent then stackofreturns s else F_onWriteRaw # stackofreturns s),
            timestamp1 := clock s\<rparr>"
proof -
  let ?body = "postMessage @ ''&headers=false''"
  let ?ps = "[''POST /update HTTP/1.1'' @ CRLF] @ header_pieces writeAPIKey @
             [''Content-Type: application/x-www-form-urlencoded'' @ CRLF,
              ''Content-Length: '', dec (length ?body), CRLF @ CRLF, ?body]"
  let ?s1 = "s\<lparr>client := (client s)\<lparr>connects := Suc (connects (client s))\<rparr>\<rparr>"
  have cat: "concat ?ps = post_request writeAPIKey ?body"
    by (simp add: post_request_def post_head_def)
  have ne: "\<forall>p \<in> set ?ps. p \<noteq> []"
    using header_pieces_nonempty[OF assms(2)] by (auto simp: CRLF_def dec_nonempty)
  have len: "length (concat ?ps) \<le> room (client ?s1)"
    unfolding cat using assms(3) by simp
  have conn: "connectThingSpeak s = (True, ?s1)"
    using assms(1) by (simp add: connectThingSpeak_def cconnect_def)
  show ?thesis
    unfolding writeRawSilent_def
    apply (simp only: conn prod.case bool.case Let_def send_eq print_all_ok[OF ne len] cat)
    using assms(4)
    apply (simp add: finishWrite_issued resetWriteFields_def emplace_def cong: if_cong)
    done
qed

lemma onWriteField_stays:
  assumes "stackofreturns s = F_onWriteField # rest"
  shows "stackofreturns (poll ev s) = F_onWriteField # rest"
    and "calls (poll ev s) = calls s @ [OnWriteField (lastReadStatus s)]"
    and "lastReadStatus (poll ev s) = lastReadStatus s"
  using assms by (cases ev; simp add: poll_top arrive_def ts_basic)+

lemma onWriteField_forever:
  assumes "stackofreturns s = F_onWriteField # rest"
  shows "stackofreturns (polls evs s) = F_onWriteField # rest
       \<and> calls (polls evs s) = calls s @ replicate (length evs) (OnWriteField (lastReadStatus s))
       \<and> lastReadStatus (polls evs s) = lastReadStatus s"
  using assms
proof (induction evs arbitrary: s)
  case Nil
  then show ?case by simp
next
  case (Cons ev evs)
  note st = onWriteField_stays[OF Cons.prems, of ev]
  from Cons.IH[OF st(1)] st show ?case
    by (simp add: replicate_app_Cons_same)
qed

lemma field_write_issued_eq:
  "field_write_issued =
     (begin_ts idle_client)\<lparr>client := idle_client\<lparr>connects := 1,
          tx := post_request (Some ''KEY'') ''field1=42&headers=false'',
          room := 100000 - length (post_request (Some ''KEY'') ''field1=42&headers=false''),
          flushes := 1\<rparr>,
        stackofreturns := [F_getHTTPResponse, F_finishWrite_1, F_onWriteField]\<rparr>"
proof -
  let ?s = "emplace F_onWriteField (begin_ts idle_client)"
  have len: "length (post_request (Some ''KEY'') (''field1=42'' @ ''&headers=false''))
      \<le> room (client ?s)"
    by (simp add: post_request_def post_head_def header_pieces_def CRLF_def TS_USER_AGENT_def
        dec.simps emplace_def begin_ts_def idle_client_def)
  have pre: "connect_ok (client ?s)" "Some ''KEY'' \<noteq> Some ([]::string)"
    "length (rx (client ?s)) < 17"
    by (simp_all add: emplace_def begin_ts_def idle_client_def)
  note eq = writeRawSilent_issued[OF pre(1,2) len pre(3), of 1 True]
  have msg: "''field'' @ dec 1 @ ''='' @ ''42'' = ''field1=42''"
    by (simp add: dec.simps digit_char_def)
  show ?thesis
    unfolding field_write_issued_def writeField_def Let_def msg
    apply (simp only: eq)
    apply (simp add: emplace_def begin_ts_def idle_client_def resetWriteFields_def ts_codes
        cong: if_cong)
    done
qed

text \<open>C2 at \<open>writeField\<close>.  The stack is empty before \<open>writeField(1, 1, "42", "KEY")\<close>.  The
  response \<open>HTTP/1.1 200 OK\<close>, \<open>Content-Length: 4\<close>, blank line, \<open>1234\<close> arrives whole; the
  decoder and \<open>finishWrite_1\<close> pop themselves, and the third poll calls the callback with
  200.  The closure \<open>writeField\<close> pushed has no \<open>pop\<close>: it is still on the stack after the
  callback, and every later poll calls the callback again.\<close>
theorem writeField_frame_never_pops:
  "stackofreturns (begin_ts idle_client) = []
   \<and> calls (polls [(10, sample_head @ ''1234''), (20, []), (30, [])] field_write_issued)
       = [OnWriteField 200]
   \<and> stackofreturns (polls [(10, sample_head @ ''1234''), (20, []), (30, [])] field_write_issued)
       = [F_onWriteField]
   \<and> stackofreturns
        (polls [(10, sample_head @ ''1234''), (20, []), (30, []), (40, []), (50, [])]
           field_write_issued) = [F_onWriteField]
   \<and> calls
        (polls [(10, sample_head @ ''1234''), (20, []), (30, []), (40, []), (50, [])]
           field_write_issued) = [OnWriteField 200, OnWriteField 200, OnWriteField 200]"
proof -
  let ?s = field_write_issued
  have st: "stackofreturns ?s = F_getHTTPResponse # [F_finishWrite_1, F_onWriteField]"
    and rx: "rx (client ?s) = []"
    by (simp_all add: field_write_issued_eq begin_ts_def idle_client_def)
  have len: "17 \<le> length (rx (client ?s) @ sample_head @ ''1234'')"
    by (simp add: rx sample_head_def)
  have f: "find_str ''HTTP/1.1'' (rx (client ?s) @ sample_head @ ''1234'')
           = Some ('' 200 OK'' @ CRLF @ ''Content-Length: 4'' @ CRLF @ CRLF @ ''1234'')"
    using sample_head_parse(1)[of "''1234''"] by (simp add: rx)
  note hs = headers_step[OF st len f sample_head_parse(2,3,4,5), of 10]
  have p1: "poll (10, sample_head @ ''1234'') ?s =
      ?s\<lparr>client := (client ?s)\<lparr>rx := []\<rparr>, clock := 10, timestamp1 := 10,
         contentLength := 4, lastReadStatus := 200, httpresponsetext := ''1234'',
         stackofreturns := [F_finishWrite_1, F_onWriteField]\<rparr>"
    unfolding hs by (simp add: getHTTPResponse_1_def arrive_def ts_basic Let_def)
  have id: "toInt ''1234'' = 1234"
    by (simp add: toInt_def isspace_def is_digit_def digit_val_def)
  have p2: "polls [(10, sample_head @ ''1234''), (20, [])] ?s =
      ?s\<lparr>client := (client ?s)\<lparr>rx := [], stops := 1\<rparr>, clock := 20, timestamp1 := 10,
         contentLength := 4, lastReadStatus := 200, httpresponsetext := ''1234'',
         stackofreturns := [F_onWriteField]\<rparr>"
    unfolding polls_Cons polls_Nil p1
    by (simp add: poll_top arrive_def finishWrite_1_def ts_basic ts_codes Let_def id
        field_write_issued_eq idle_client_def)
  let ?s2 = "polls [(10, sample_head @ ''1234''), (20, [])] ?s"
  have s2: "stackofreturns ?s2 = F_onWriteField # []" "calls ?s2 = []" "lastReadStatus ?s2 = 200"
    unfolding p2 by (simp_all add: field_write_issued_eq begin_ts_def)
  have a: "polls [(10, sample_head @ ''1234''), (20, []), (30, [])] ?s = polls [(30, [])] ?s2"
    "polls [(10, sample_head @ ''1234''), (20, []), (30, []), (40, []), (50, [])] ?s
      = polls [(30, []), (40, []), (50, [])] ?s2"
    by simp_all
  have b: "stackofreturns (begin_ts idle_client) = []"
    by (simp add: begin_ts_def)
  show ?thesis
    unfolding a
    using onWriteField_forever[OF s2(1), of "[(30, [])]"]
      onWriteField_forever[OF s2(1), of "[(30, []), (40, []), (50, [])]"]
    by (simp add: s2 b del: polls_Cons polls_Nil)
qed

section \<open>Timeout\<close>

text \<open>C4 as stated fails for the header wait.  The decoder waits, and consults the deadline,
  only while fewer than 17 bytes are available.  Here a read has been awaiting since time 0
  and at 6000 ms the first 28 bytes of a header block arrive, with no blank line among them:
  the decoder parses what is there and records -303, not -304.  The same bytes arriving at
  10 ms give the same result.\<close>
theorem partial_header_is_bad_response_counterexample:
  "6000 - timestamp1 status_read_issued > TIMEOUT_MS_SERVERRESPONSE
   \<and> find_str (CRLF @ CRLF) partial_head = None
   \<and> lastReadStatus (poll (6000, partial_head) status_read_issued) = - 303
   \<and> lastReadStatus (polls [(6000, partial_head), (6001, []), (6002, [])] status_read_issued)
       = - 303
   \<and> stackofreturns (polls [(6000, partial_head), (6001, []), (6002, [])] status_read_issued)
       = []
   \<and> lastReadStatus (poll (10, partial_head) status_read_issued) = - 303"
proof -
  let ?s = status_read_issued
  have st: "stackofreturns ?s = F_getHTTPResponse # [F_readRaw_1, F_readStatus_1]"
    and rx: "rx (client ?s) = []"
    by (simp_all add: status_read_issued_eq)
  have len: "17 \<le> length (rx (client ?s) @ partial_head)"
    by (simp add: rx partial_head_parse)
  have f: "find_str ''HTTP/1.1'' (rx (client ?s) @ partial_head)
      = Some ('' 200 OK'' @ CRLF @ ''Content-Len'')"
    by (simp add: rx partial_head_parse)
  note b = bad_header_step[OF st len f partial_head_parse(2,3)]
  let ?s1 = "poll (6000, partial_head) ?s"
  have s1: "stackofreturns ?s1 = F_readRaw_1 # [F_readStatus_1]" "lastReadStatus ?s1 \<noteq> 200"
    "lastReadStatus ?s1 = - 303"
    by (simp_all add: b)
  have fin: "F_readRaw_1 = F_readRaw_1 \<or> F_readRaw_1 = F_finishWrite_1" by simp
  note fs = finisher_step[OF s1(1) fin s1(2), where ev = "(6001, [])"]
  have "stackofreturns (poll (6001, []) ?s1) = [F_readStatus_1] @ []" using fs(1) by simp
  from completion_drain[OF _ this, of "[(6002, [])]"] fs(2) s1(3)
  have "lastReadStatus (polls [(6000, partial_head), (6001, []), (6002, [])] ?s) = - 303
      \<and> stackofreturns (polls [(6000, partial_head), (6001, []), (6002, [])] ?s) = []"
    by simp
  then show ?thesis
    by (simp add: status_read_issued_eq partial_head_parse b ts_codes
        del: polls_Cons polls_Nil)
qed

text \<open>C4, amended.  Take a request whose top frame is awaiting the status line with fewer
  than 17 bytes available, or awaiting the body with fewer than \<open>contentLength\<close> bytes
  available, above its finisher (\<open>readRaw_1\<close> or \<open>finishWrite_1\<close>).  A poll at which more
  than 5000 ms have passed since \<open>timestamp1\<close> records -304 in \<open>lastReadStatus\<close> and pops
  the awaiting frame without touching the connection; the next poll runs the finisher,
  which calls \<open>stop\<close> once and leaves the status.  Whatever frames the operation left
  beneath (the closure of \<open>writeField\<close> included), the status is still -304 and \<open>stop\<close> has
  been called exactly once after any number of further polls, and the stack has drained
  once every completion frame has had its poll.

  The header wait is for 17 bytes, not for the header block.  At a poll where 17 or more
  bytes are available and no blank line is among them, the decoder pops itself at once,
  whatever the clock and \<open>timestamp1\<close> say: with -303, or with the status code of the
  response when \<open>HTTP/1.1\<close> is found and the number after it is not 200.\<close>
theorem timeout_closes_once:
  "(stackofreturns s = aw # fin # cbs
      \<and> (aw = F_getHTTPResponse \<and> length (rx (client s) @ bytes) < 17
           \<or> aw = F_getHTTPResponse_1 \<and> int (length (rx (client s) @ bytes)) < contentLength s)
      \<and> now - timestamp1 s > TIMEOUT_MS_SERVERRESPONSE
      \<and> (fin = F_readRaw_1 \<or> fin = F_finishWrite_1)
    \<longrightarrow> lastReadStatus (poll (now, bytes) s) = TS_ERR_TIMEOUT
       \<and> stackofreturns (poll (now, bytes) s) = fin # cbs
       \<and> stops (client (poll (now, bytes) s)) = stops (client s)
       \<and> lastReadStatus (polls [(now, bytes), ev] s) = TS_ERR_TIMEOUT
       \<and> stackofreturns (polls [(now, bytes), ev] s) = cbs
       \<and> stops (client (polls [(now, bytes), ev] s)) = Suc (stops (client s))
       \<and> (list_all callback_frame cbs \<longrightarrow>
            lastReadStatus (polls ((now, bytes) # ev # evs) s) = TS_ERR_TIMEOUT
            \<and> stops (client (polls ((now, bytes) # ev # evs) s)) = Suc (stops (client s)))
       \<and> (list_all completion_frame cbs \<and> length cbs \<le> length evs \<longrightarrow>
            stackofreturns (polls ((now, bytes) # ev # evs) s) = []))
   \<and> (stackofreturns s = F_getHTTPResponse # rest
      \<and> 17 \<le> length (rx (client s) @ bytes)
      \<and> find_str (CRLF @ CRLF) (rx (client s) @ bytes) = None
    \<longrightarrow> stackofreturns (poll (now, bytes) s) = rest
       \<and> lastReadStatus (poll (now, bytes) s) =
           (case find_str ''HTTP/1.1'' (rx (client s) @ bytes) of
              None \<Rightarrow> TS_ERR_BAD_RESPONSE
            | Some r1 \<Rightarrow>
                if fst (parseInt_str r1) \<noteq> TS_OK_SUCCESS then fst (parseInt_str r1)
                else TS_ERR_BAD_RESPONSE))"
proof (rule conjI; rule impI)
  assume h: "stackofreturns s = aw # fin # cbs
      \<and> (aw = F_getHTTPResponse \<and> length (rx (client s) @ bytes) < 17
           \<or> aw = F_getHTTPResponse_1 \<and> int (length (rx (client s) @ bytes)) < contentLength s)
      \<and> now - timestamp1 s > TIMEOUT_MS_SERVERRESPONSE
      \<and> (fin = F_readRaw_1 \<or> fin = F_finishWrite_1)"
  then have st: "stackofreturns s = aw # fin # cbs"
    and aw: "aw = F_getHTTPResponse \<and> length (rx (client s) @ bytes) < 17
           \<or> aw = F_getHTTPResponse_1 \<and> int (length (rx (client s) @ bytes)) < contentLength s"
    and late: "now - timestamp1 s > TIMEOUT_MS_SERVERRESPONSE"
    and fin: "fin = F_readRaw_1 \<or> fin = F_finishWrite_1"
    by blast+
  let ?s1 = "poll (now, bytes) s"
  let ?s2 = "poll ev ?s1"
  have s1: "?s1 = (arrive now bytes s)\<lparr>stackofreturns := fin # cbs, lastReadStatus := - 304\<rparr>"
    using timeout_step[OF st aw] late by (simp add: ts_codes)
  have st1: "stackofreturns ?s1 = fin # cbs" "lastReadStatus ?s1 \<noteq> 200"
    "lastReadStatus ?s1 = - 304" "stops (client ?s1) = stops (client s)"
    by (simp_all add: s1 arrive_def)
  note fs = finisher_step[OF st1(1) fin st1(2), of ev]
  have two: "lastReadStatus ?s2 = - 304" "stackofreturns ?s2 = cbs"
    "stops (client ?s2) = Suc (stops (client s))"
    using fs st1 by simp_all
  have later: "lastReadStatus (polls evs ?s2) = - 304
      \<and> stops (client (polls evs ?s2)) = Suc (stops (client s))"
    if "list_all callback_frame cbs"
    using callbacks_polls[of ?s2 evs] that two by simp
  have drain: "stackofreturns (polls evs ?s2) = []"
    if "list_all completion_frame cbs \<and> length cbs \<le> length evs"
    using completion_drain_all[OF _ two(2), of evs] that by simp
  show "lastReadStatus (poll (now, bytes) s) = TS_ERR_TIMEOUT
       \<and> stackofreturns (poll (now, bytes) s) = fin # cbs
       \<and> stops (client (poll (now, bytes) s)) = stops (client s)
       \<and> lastReadStatus (polls [(now, bytes), ev] s) = TS_ERR_TIMEOUT
       \<and> stackofreturns (polls [(now, bytes), ev] s) = cbs
       \<and> stops (client (polls [(now, bytes), ev] s)) = Suc (stops (client s))
       \<and> (list_all callback_frame cbs \<longrightarrow>
            lastReadStatus (polls ((now, bytes) # ev # evs) s) = TS_ERR_TIMEOUT
            \<and> stops (client (polls ((now, bytes) # ev # evs) s)) = Suc (stops (client s)))
       \<and> (list_all completion_frame cbs \<and> length cbs \<le> length evs \<longrightarrow>
            stackofreturns (polls ((now, bytes) # ev # evs) s) = [])"
    using st1 two later drain by (simp add: ts_codes)
next
  assume "stackofreturns s = F_getHTTPResponse # rest
      \<and> 17 \<le> length (rx (client s) @ bytes)
      \<and> find_str (CRLF @ CRLF) (rx (client s) @ bytes) = None"
  then have h: "stackofreturns s = F_getHTTPResponse # rest"
    "17 \<le> length (rx (client s) @ bytes)"
    "find_str (CRLF @ CRLF) (rx (client s) @ bytes) = None"
    by blast+
  from header_incomplete_step[OF h, of now]
  show "stackofreturns (poll (now, bytes) s) = rest
       \<and> lastReadStatus (poll (now, bytes) s) =
           (case find_str ''HTTP/1.1'' (rx (client s) @ bytes) of
              None \<Rightarrow> TS_ERR_BAD_RESPONSE
            | Some r1 \<Rightarrow>
                if fst (parseInt_str r1) \<noteq> TS_OK_SUCCESS then fst (parseInt_str r1)
                else TS_ERR_BAD_RESPONSE)"
    by blast
qed

theorem timeout_closes_once_witness:
  "lastReadStatus (polls [(5001, ''HTTP''), (5002, []), (5003, [])] status_read_issued) = - 304
   \<and> stackofreturns (polls [(5001, ''HTTP''), (5002, []), (5003, [])] status_read_issued) = []
   \<and> stops (client (polls [(5001, ''HTTP''), (5002, []), (5003, [])] status_read_issued)) = 1
   \<and> lastReadStatus
        (polls [(5001, ''HTTP''), (5002, []), (5003, []), (5004, [])] field_write_issued) = - 304
   \<and> stops (client
        (polls [(5001, ''HTTP''), (5002, []), (5003, []), (5004, [])] field_write_issued)) = 1
   \<and> lastReadStatus (poll (9000, partial_head) field_write_issued) = - 303
   \<and> stackofreturns (poll (9000, partial_head) field_write_issued)
       = [F_finishWrite_1, F_onWriteField]"
proof -
  have r: "stackofreturns status_read_issued = F_getHTTPResponse # F_readRaw_1 # [F_readStatus_1]
    \<and> (F_getHTTPResponse = F_getHTTPResponse \<and> length (rx (client status_read_issued) @ ''HTTP'') < 17
     \<or> F_getHTTPResponse = F_getHTTPResponse_1
        \<and> int (length (rx (client status_read_issued) @ ''HTTP'')) < contentLength status_read_issued)
    \<and> 5001 - timestamp1 status_read_issued > TIMEOUT_MS_SERVERRESPONSE
    \<and> (F_readRaw_1 = F_readRaw_1 \<or> F_readRaw_1 = F_finishWrite_1)"
    by (simp add: status_read_issued_eq ts_codes)
  have w: "stackofreturns field_write_issued
             = F_getHTTPResponse # F_finishWrite_1 # [F_onWriteField]
    \<and> (F_getHTTPResponse = F_getHTTPResponse \<and> length (rx (client field_write_issued) @ ''HTTP'') < 17
     \<or> F_getHTTPResponse = F_getHTTPResponse_1
        \<and> int (length (rx (client field_write_issued) @ ''HTTP'')) < contentLength field_write_issued)
    \<and> 5001 - timestamp1 field_write_issued > TIMEOUT_MS_SERVERRESPONSE
    \<and> (F_finishWrite_1 = F_readRaw_1 \<or> F_finishWrite_1 = F_finishWrite_1)"
    and w0: "stops (client field_write_issued) = 0"
    by (simp_all add: field_write_issued_eq begin_ts_def idle_client_def ts_codes)
  have i: "stackofreturns field_write_issued = F_getHTTPResponse # [F_finishWrite_1, F_onWriteField]
      \<and> 17 \<le> length (rx (client field_write_issued) @ partial_head)
      \<and> find_str (CRLF @ CRLF) (rx (client field_write_issued) @ partial_head) = None"
    and i1: "find_str ''HTTP/1.1'' (rx (client field_write_issued) @ partial_head)
         = Some ('' 200 OK'' @ CRLF @ ''Content-Len'')"
    by (simp_all add: field_write_issued_eq begin_ts_def idle_client_def partial_head_parse)
  note a = timeout_closes_once[where s = status_read_issued and bytes = "''HTTP''"
      and now = 5001 and ev = "(5002, [])" and evs = "[(5003, [])]",
      THEN conjunct1, THEN mp, OF r]
  note b = timeout_closes_once[where s = field_write_issued and bytes = "''HTTP''"
      and now = 5001 and ev = "(5002, [])" and evs = "[(5003, []), (5004, [])]",
      THEN conjunct1, THEN mp, OF w]
  note c = timeout_closes_once[where s = field_write_issued and bytes = partial_head
      and now = 9000, THEN conjunct2, THEN mp, OF i]
  have c': "lastReadStatus (poll (9000, partial_head) field_write_issued) = - 303
      \<and> stackofreturns (poll (9000, partial_head) field_write_issued)
          = [F_finishWrite_1, F_onWriteField]"
    using c partial_head_parse(2) by (simp add: i1 ts_codes)
  show ?thesis
    using a b c' by (simp add: status_read_issued_eq w0 ts_codes del: polls_Cons polls_Nil)
qed

section \<open>Content-Length of a POST\<close>

lemma emit_length:
  "length (concat (emit first items)) + (if first \<and> (\<exists>it \<in> set items. fst it) then 1 else 0)
   = sum_list (map item_len items)"
proof (induction items arbitrary: first)
  case Nil
  then show ?case by simp
next
  case (Cons it items)
  obtain present ps where it: "it = (present, ps)" by (cases it)
  show ?case
  proof (cases present)
    case True
    with Cons.IH[of False] it show ?thesis by (simp add: item_len_def)
  next
    case False
    with Cons.IH[of first] it show ?thesis by (simp add: item_len_def)
  qed
qed

lemma emit_nonempty:
  "\<forall>it \<in> set items. fst it \<longrightarrow> (\<forall>p \<in> set (snd it). p \<noteq> []) \<Longrightarrow>
   \<forall>p \<in> set (emit first items). p \<noteq> []"
proof (induction items arbitrary: first)
  case Nil
  then show ?case by simp
next
  case (Cons it items)
  obtain present ps where it: "it = (present, ps)" by (cases it)
  from Cons.prems have rest: "\<forall>it \<in> set items. fst it \<longrightarrow> (\<forall>p \<in> set (snd it). p \<noteq> [])"
    by simp
  show ?case
  proof (cases present)
    case True
    with Cons.prems it have "\<forall>p \<in> set ps. p \<noteq> []" by simp
    with Cons.IH[OF rest, of False] it True show ?thesis by auto
  next
    case False
    with Cons.IH[OF rest, of first] it show ?thesis by simp
  qed
qed

lemma int_sum_list: "int (sum_list (map f xs)) = sum_list (map (\<lambda>x. int (f x)) xs)"
  by (induction xs) auto

lemma dec_small: "n < 10 \<Longrightarrow> dec n = [digit_char n]"
  by (subst dec.simps) simp

lemma sum_list_map_cong:
  "(\<And>x. x \<in> set xs \<Longrightarrow> f x = g x) \<Longrightarrow> sum_list (map f xs) = sum_list (map g xs)"
  by (induction xs) auto

lemma fields_sum:
  "int (sum_list (map item_len
      (map (\<lambda>iField. (length (nextWriteField s iField) > 0,
                     [''field'', dec (iField + 1), ''='', nextWriteField s iField]))
       [0..<FIELDNUM_MAX])))
   = sum_list (map (field_contentLen s) [0..<FIELDNUM_MAX])"
  unfolding FIELDNUM_MAX_def int_sum_list map_map comp_def
  by (rule sum_list_map_cong) (simp add: item_len_def field_contentLen_def dec_small)

lemma item_len2:
  "int (item_len (p, [k, v])) = (if p then 1 + int (length k) + int (length v) else 0)"
  by (simp add: item_len_def)

lemma contentLength_items:
  assumes "floats_ok s"
  shows "getWriteFieldsContentLength s =
         (if sum_list (map item_len (write_items s)) = 0 then 0
          else int (sum_list (map item_len (write_items s))) + 13)"
proof -
  have fl: "\<not> isnan (nextWriteLatitude s) \<Longrightarrow>
              length (as_String (nextWriteLatitude s)) = length (as_print (nextWriteLatitude s))"
    "\<not> isnan (nextWriteLongitude s) \<Longrightarrow>
              length (as_String (nextWriteLongitude s)) = length (as_print (nextWriteLongitude s))"
    "\<not> isnan (nextWriteElevation s) \<Longrightarrow>
              length (as_String (nextWriteElevation s)) = length (as_print (nextWriteElevation s))"
    using assms by (auto simp: floats_ok_def)
  have split: "int (sum_list (map item_len (write_items s))) =
      sum_list (map (field_contentLen s) [0..<FIELDNUM_MAX])
    + ((if \<not> isnan (nextWriteLatitude s) then 5 + int (length (as_String (nextWriteLatitude s))) else 0)
    + ((if \<not> isnan (nextWriteLongitude s) then 6 + int (length (as_String (nextWriteLongitude s))) else 0)
    + ((if \<not> isnan (nextWriteElevation s) then 11 + int (length (as_String (nextWriteElevation s))) else 0)
    + ((if length (nextWriteStatus s) > 0 then 8 + int (length (nextWriteStatus s)) else 0)
    + ((if length (nextWriteTwitter s) > 0 then 9 + int (length (nextWriteTwitter s)) else 0)
    + ((if length (nextWriteTweet s) > 0 then 7 + int (length (nextWriteTweet s)) else 0)
    + ((if length (nextWriteCreatedAt s) > 0 then 12 + int (length (nextWriteCreatedAt s)) else 0))))))))"
    unfolding write_items_def map_append sum_list_append of_nat_add fields_sum
    by (simp add: item_len2 fl cong: if_cong)
  have "getWriteFieldsContentLength s =
      (if int (sum_list (map item_len (write_items s))) = 0 then 0
       else int (sum_list (map item_len (write_items s))) + 13)"
    unfolding split getWriteFieldsContentLength_def Let_def
    by (simp cong: if_cong)
  then show ?thesis by simp
qed

lemma write_items_nonempty:
  assumes "floats_ok s"
  shows "\<forall>it \<in> set (write_items s). fst it \<longrightarrow> (\<forall>p \<in> set (snd it). p \<noteq> [])"
  using assms by (auto simp: write_items_def floats_ok_def dec_nonempty)

lemma body_length:
  assumes "floats_ok s" and "getWriteFieldsContentLength s \<noteq> 0"
  shows "getWriteFieldsContentLength s = int (length (writeFields_body s))"
proof -
  let ?n = "sum_list (map item_len (write_items s))"
  from assms contentLength_items[OF assms(1)] have n: "?n \<noteq> 0"
    and cl: "getWriteFieldsContentLength s = int ?n + 13" by (auto split: if_splits)
  have ex: "\<exists>it \<in> set (write_items s). fst it"
  proof (rule ccontr)
    assume "\<not> ?thesis"
    then have "\<forall>it \<in> set (write_items s). item_len it = 0" by (simp add: item_len_def)
    then have "?n = 0" by (simp add: sum_list_eq_0_iff)
    with n show False by simp
  qed
  from emit_length[of True "write_items s"] ex
  have "length (concat (emit True (write_items s))) + 1 = ?n" by simp
  then show ?thesis unfolding cl writeFields_body_def by simp
qed

lemma getHTTPResponse_1_tx: "tx (client (getHTTPResponse_1 s)) = tx (client s)"
  by (simp add: getHTTPResponse_1_def ts_basic Let_def)

lemma cfind_tx: "cfind t c = (b, c') \<Longrightarrow> tx c' = tx c"
  by (auto simp: cfind_def split: option.splits)

lemma cparseInt_tx: "cparseInt c = (v, c') \<Longrightarrow> tx c' = tx c"
  by (auto simp: cparseInt_def split: prod.splits)

lemma getHTTPResponse_tx: "tx (client (getHTTPResponse s)) = tx (client s)"
  by (auto simp: getHTTPResponse_def getHTTPResponse_1_tx ts_basic
      split: prod.splits bool.splits dest!: cfind_tx cparseInt_tx)

lemma finishWrite_tx: "tx (client (finishWrite s)) = tx (client s)"
  by (simp add: finishWrite_def getHTTPResponse_tx ts_basic Let_def)

lemma dec_int_nat: "dec_int (int n) = dec n"
  by (simp add: dec_int_def)

lemma writeRawSilent_tx:
  assumes "connect_ok (client s)" and "writeAPIKey \<noteq> Some []"
    and "length (post_request writeAPIKey (postMessage @ ''&headers=false'')) \<le> room (client s)"
  shows "tx (client (writeRawSilent channelNumber postMessage writeAPIKey silent s)) =
         tx (client s) @ post_request writeAPIKey (postMessage @ ''&headers=false'')"
proof -
  let ?body = "postMessage @ ''&headers=false''"
  let ?ps = "[''POST /update HTTP/1.1'' @ CRLF] @ header_pieces writeAPIKey @
             [''Content-Type: application/x-www-form-urlencoded'' @ CRLF,
              ''Content-Length: '', dec (length ?body), CRLF @ CRLF, ?body]"
  let ?s1 = "s\<lparr>client := (client s)\<lparr>connects := Suc (connects (client s))\<rparr>\<rparr>"
  have cat: "concat ?ps = post_request writeAPIKey ?body"
    by (simp add: post_request_def post_head_def)
  have ne: "\<forall>p \<in> set ?ps. p \<noteq> []"
    using header_pieces_nonempty[OF assms(2)] by (auto simp: CRLF_def dec_nonempty)
  have len: "length (concat ?ps) \<le> room (client ?s1)"
    unfolding cat using assms(3) by simp
  have conn: "connectThingSpeak s = (True, ?s1)"
    using assms(1) by (simp add: connectThingSpeak_def cconnect_def)
  show ?thesis
    unfolding writeRawSilent_def
    apply (simp only: conn prod.case bool.case Let_def send_eq print_all_ok[OF ne len] cat)
    apply (simp add: finishWrite_tx resetWriteFields_def emplace_def)
    done
qed

lemma write_items_client [simp]: "write_items (s\<lparr>client := c\<rparr>) = write_items s"
  by (simp add: write_items_def)

lemma floats_ok_client [simp]: "floats_ok (s\<lparr>client := c\<rparr>) = floats_ok s"
  by (simp add: floats_ok_def)

lemma contentLength_client [simp]:
  assumes "floats_ok s"
  shows "getWriteFieldsContentLength (s\<lparr>client := c\<rparr>) = getWriteFieldsContentLength s"
  using contentLength_items[of s] contentLength_items[of "s\<lparr>client := c\<rparr>"] assms
  by simp

lemma writeFields_tx:
  assumes "connect_ok (client s)" and "writeAPIKey \<noteq> Some []"
    and "floats_ok s" and "getWriteFieldsContentLength s \<noteq> 0"
    and "length (post_request writeAPIKey (writeFields_body s)) \<le> room (client s)"
  shows "tx (client (writeFields channelNumber writeAPIKey s)) =
         tx (client s) @ post_request writeAPIKey (writeFields_body s)"
proof -
  let ?s1 = "s\<lparr>client := (client s)\<lparr>connects := Suc (connects (client s))\<rparr>\<rparr>"
  let ?ps = "[''POST /update HTTP/1.1'' @ CRLF] @ header_pieces writeAPIKey @
             ([''Content-Type: application/x-www-form-urlencoded'' @ CRLF,
               ''Content-Length: '', dec_int (getWriteFieldsContentLength ?s1), CRLF @ CRLF] @
              emit True (write_items ?s1) @ [''&headers=false''])"
  have cl: "getWriteFieldsContentLength ?s1 = int (length (writeFields_body s))"
    using body_length[OF assms(3,4)] assms(3) by simp
  have nz: "(getWriteFieldsContentLength ?s1 = 0) = False"
    using assms(3,4) by simp
  have cat: "concat ?ps = post_request writeAPIKey (writeFields_body s)"
    unfolding cl dec_int_nat
    by (simp add: post_request_def post_head_def writeFields_body_def)
  have ne: "\<forall>p \<in> set ?ps. p \<noteq> []"
    unfolding cl dec_int_nat
    using header_pieces_nonempty[OF assms(2)]
      emit_nonempty[OF write_items_nonempty[OF assms(3)], of True]
    by (auto simp: CRLF_def dec_nonempty)
  have len: "length (concat ?ps) \<le> room (client ?s1)"
    unfolding cat using assms(5) by simp
  have conn: "connectThingSpeak s = (True, ?s1)"
    using assms(1) by (simp add: connectThingSpeak_def cconnect_def)
  show ?thesis
    unfolding writeFields_def
    apply (simp only: conn prod.case bool.case Let_def nz if_False send_eq
        print_all_ok[OF ne len] cat)
    apply (simp add: finishWrite_tx resetWriteFields_def emplace_def)
    done
qed

text \<open>Where the count is exact.  When the connection is made and accepts every byte, the
  bytes \<open>writeRawSilent\<close> (and so \<open>writeRaw\<close>) puts on the wire are the request head, then
  \<open>Content-Length: \<close> followed by the decimal length of the body, a blank line, and that
  body: the message with \<open>&headers=false\<close> appended.  \<open>writeFields\<close> does the same with
  the staged items joined by ampersands, provided the two renderings of each staged
  coordinate agree in length (\<open>floats_ok\<close>).\<close>
lemma content_length_exact:
  "(connect_ok (client s) \<and> writeAPIKey \<noteq> Some []
      \<and> length (post_request writeAPIKey (postMessage @ ''&headers=false'')) \<le> room (client s)
    \<longrightarrow> tx (client (writeRawSilent channelNumber postMessage writeAPIKey silent s)) =
        tx (client s) @ post_head writeAPIKey @ ''Content-Length: ''
          @ dec (length (postMessage @ ''&headers=false'')) @ CRLF @ CRLF
          @ (postMessage @ ''&headers=false''))
   \<and> (connect_ok (client s) \<and> writeAPIKey \<noteq> Some [] \<and> floats_ok s
      \<and> getWriteFieldsContentLength s \<noteq> 0
      \<and> length (post_request writeAPIKey (writeFields_body s)) \<le> room (client s)
    \<longrightarrow> tx (client (writeFields channelNumber writeAPIKey s)) =
        tx (client s) @ post_head writeAPIKey @ ''Content-Length: ''
          @ dec (length (writeFields_body s)) @ CRLF @ CRLF @ writeFields_body s)"
proof (intro conjI impI)
  assume "connect_ok (client s) \<and> writeAPIKey \<noteq> Some []
      \<and> length (post_request writeAPIKey (postMessage @ ''&headers=false'')) \<le> room (client s)"
  then show "tx (client (writeRawSilent channelNumber postMessage writeAPIKey silent s)) =
        tx (client s) @ post_head writeAPIKey @ ''Content-Length: ''
          @ dec (length (postMessage @ ''&headers=false'')) @ CRLF @ CRLF
          @ (postMessage @ ''&headers=false'')"
    using writeRawSilent_tx[of s writeAPIKey postMessage channelNumber silent]
    by (simp add: post_request_def)
next
  assume "connect_ok (client s) \<and> writeAPIKey \<noteq> Some [] \<and> floats_ok s
      \<and> getWriteFieldsContentLength s \<noteq> 0
      \<and> length (post_request writeAPIKey (writeFields_body s)) \<le> room (client s)"
  then show "tx (client (writeFields channelNumber writeAPIKey s)) =
        tx (client s) @ post_head writeAPIKey @ ''Content-Length: ''
          @ dec (length (writeFields_body s)) @ CRLF @ CRLF @ writeFields_body s"
    using writeFields_tx[of s writeAPIKey channelNumber]
    by (simp add: post_request_def)
qed

lemma upt8: "[0..<8] = [0, 1, 2, 3, 4, 5, 6, 7]"
  by (simp add: upt_rec)

lemma two_fields_body:
  "writeFields_body two_fields_staged = ''field1=42&field2=3.14000&headers=false''"
  by (simp add: writeFields_body_def write_items_def two_fields_staged_def setField_def
      begin_ts_def ts_codes upt8 NAN_def dec_small digit_char_def)

lemma two_fields_len: "getWriteFieldsContentLength two_fields_staged = 38"
  by (simp add: getWriteFieldsContentLength_def field_contentLen_def two_fields_staged_def
      setField_def begin_ts_def ts_codes upt8 NAN_def Let_def)

lemma len38: "length ''field1=42&field2=3.14000&headers=false'' = 38"
  by simp

lemma dec38: "dec 38 = ''38''"
  by (simp add: dec.simps digit_char_def)

lemma content_length_exact_two_fields:
  "tx (client (writeFields 1 None two_fields_staged)) =
     post_head None @ ''Content-Length: 38'' @ CRLF @ CRLF
       @ ''field1=42&field2=3.14000&headers=false''"
proof -
  have h: "connect_ok (client two_fields_staged) \<and> None \<noteq> Some ([]::string)
      \<and> floats_ok two_fields_staged
      \<and> getWriteFieldsContentLength two_fields_staged \<noteq> 0
      \<and> length (post_request None (writeFields_body two_fields_staged))
          \<le> room (client two_fields_staged)"
    unfolding two_fields_body two_fields_len post_request_def len38 dec38
    by (simp add: two_fields_staged_def setField_def begin_ts_def idle_client_def ts_codes
        floats_ok_def NAN_def post_request_def post_head_def header_pieces_def CRLF_def
        TS_USER_AGENT_def dec38)
  have t: "tx (client two_fields_staged) = []"
    by (simp add: two_fields_staged_def setField_def begin_ts_def idle_client_def ts_codes)
  from content_length_exact[where s = two_fields_staged and writeAPIKey = None and channelNumber = 1, THEN conjunct2, THEN mp, OF h]
  show ?thesis
    unfolding two_fields_body t len38 dec38 by simp
qed

lemma writeFields_sent:
  assumes "connect_ok (client s)" and "writeAPIKey \<noteq> Some []"
    and "getWriteFieldsContentLength s \<noteq> 0"
    and "\<forall>p \<in> set (emit True (write_items s)). p \<noteq> []"
    and "length (post_head writeAPIKey @ ''Content-Length: ''
           @ dec_int (getWriteFieldsContentLength s) @ CRLF @ CRLF @ writeFields_body s)
         \<le> room (client s)"
  shows "tx (client (writeFields channelNumber writeAPIKey s)) =
         tx (client s) @ post_head writeAPIKey @ ''Content-Length: ''
           @ dec_int (getWriteFieldsContentLength s) @ CRLF @ CRLF @ writeFields_body s"
proof -
  let ?s1 = "s\<lparr>client := (client s)\<lparr>connects := Suc (connects (client s))\<rparr>\<rparr>"
  let ?ps = "[''POST /update HTTP/1.1'' @ CRLF] @ header_pieces writeAPIKey @
             ([''Content-Type: application/x-www-form-urlencoded'' @ CRLF,
               ''Content-Length: '', dec_int (getWriteFieldsContentLength ?s1), CRLF @ CRLF] @
              emit True (write_items ?s1) @ [''&headers=false''])"
  have nz: "(getWriteFieldsContentLength ?s1 = 0) = False"
    using assms(3) by simp
  have d: "dec_int (getWriteFieldsContentLength s) \<noteq> []"
    by (simp add: dec_int_def dec_nonempty)
  have cat: "concat ?ps = post_head writeAPIKey @ ''Content-Length: ''
           @ dec_int (getWriteFieldsContentLength s) @ CRLF @ CRLF @ writeFields_body s"
    by (simp add: post_head_def writeFields_body_def)
  have ne: "\<forall>p \<in> set ?ps. p \<noteq> []"
    using header_pieces_nonempty[OF assms(2)] assms(4) d
    by (auto simp: CRLF_def)
  have len: "length (concat ?ps) \<le> room (client ?s1)"
    unfolding cat using assms(5) by simp
  have conn: "connectThingSpeak s = (True, ?s1)"
    using assms(1) by (simp add: connectThingSpeak_def cconnect_def)
  show ?thesis
    unfolding writeFields_def
    apply (simp only: conn prod.case bool.case Let_def nz if_False send_eq
        print_all_ok[OF ne len] cat)
    apply (simp add: finishWrite_tx resetWriteFields_def emplace_def)
    done
qed

lemma elevation_staged_len: "getWriteFieldsContentLength elevation_staged = 37"
  by (simp add: getWriteFieldsContentLength_def field_contentLen_def elevation_staged_def
      setElevation_def begin_ts_def ts_codes upt8 NAN_def Let_def)

lemma elevation_staged_body:
  "emit True (write_items elevation_staged) = [''elevation='', ''ovf'']"
  "writeFields_body elevation_staged = ''elevation=ovf&headers=false''"
  by (simp_all add: writeFields_body_def write_items_def elevation_staged_def setElevation_def
      begin_ts_def ts_codes upt8 NAN_def)

lemma dec37: "dec_int 37 = ''37''" "dec 27 = ''27''"
  by (simp_all add: dec_int_def dec.simps digit_char_def)

text \<open>C6 at \<open>writeFields\<close> with a staged coordinate.  After \<open>setElevation(5e9f)\<close> on a fresh
  object, \<open>getWriteFieldsContentLength\<close> counts the 13 characters of \<open>String(5e9f)\<close> and
  gives 37, and \<open>writeFields\<close> writes \<open>Content-Length: 37\<close>; the body it then prints holds
  what \<open>print(5e9f)\<close> writes, \<open>ovf\<close>, and is 27 bytes long.  \<open>writeRaw\<close> with the same
  body declares 27: it takes the length of the very string it prints.\<close>
theorem writeFields_declares_more_than_it_writes:
  "getWriteFieldsContentLength elevation_staged = 37
   \<and> tx (client (writeFields 1 (Some ''KEY'') elevation_staged))
       = post_head (Some ''KEY'') @ ''Content-Length: 37'' @ CRLF @ CRLF
           @ ''elevation=ovf&headers=false''
   \<and> length ''elevation=ovf&headers=false'' = 27
   \<and> tx (client (writeRaw 1 ''elevation=ovf'' (Some ''KEY'') (begin_ts idle_client)))
       = post_head (Some ''KEY'') @ ''Content-Length: 27'' @ CRLF @ CRLF
           @ ''elevation=ovf&headers=false''"
proof -
  let ?s = elevation_staged
  have c: "client ?s = idle_client"
    by (simp add: elevation_staged_def setElevation_def begin_ts_def)
  have pre: "connect_ok (client ?s)" "Some ''KEY'' \<noteq> Some ([]::string)"
    "getWriteFieldsContentLength ?s \<noteq> 0"
    "\<forall>p \<in> set (emit True (write_items ?s)). p \<noteq> []"
    by (simp_all add: c idle_client_def elevation_staged_len elevation_staged_body)
  have room: "length (post_head (Some ''KEY'') @ ''Content-Length: ''
           @ dec_int (getWriteFieldsContentLength ?s) @ CRLF @ CRLF @ writeFields_body ?s)
         \<le> room (client ?s)"
    unfolding elevation_staged_len elevation_staged_body dec37 c
    by (simp add: idle_client_def post_head_def header_pieces_def CRLF_def TS_USER_AGENT_def)
  have a: "tx (client (writeFields 1 (Some ''KEY'') ?s))
       = post_head (Some ''KEY'') @ ''Content-Length: 37'' @ CRLF @ CRLF
           @ ''elevation=ovf&headers=false''"
    unfolding writeFields_sent[OF pre room] elevation_staged_len elevation_staged_body dec37 c
    by (simp add: idle_client_def)
  let ?b = "begin_ts idle_client"
  have bc: "client ?b = idle_client" by (simp add: begin_ts_def)
  have l27: "length (''elevation=ovf'' @ ''&headers=false'') = 27" by simp
  have bpre: "connect_ok (client ?b)"
    "length (post_request (Some ''KEY'') (''elevation=ovf'' @ ''&headers=false''))
       \<le> room (client ?b)"
    unfolding bc post_request_def l27 dec37
    by (simp_all add: idle_client_def post_head_def header_pieces_def CRLF_def
        TS_USER_AGENT_def)
  have b: "tx (client (writeRaw 1 ''elevation=ovf'' (Some ''KEY'') ?b))
       = post_head (Some ''KEY'') @ ''Content-Length: 27'' @ CRLF @ CRLF
           @ ''elevation=ovf&headers=false''"
    unfolding writeRaw_def writeRawSilent_tx[OF bpre(1) pre(2) bpre(2)] bc post_request_def
      l27 dec37
    by (simp add: idle_client_def)
  show ?thesis
    using a b by (simp add: elevation_staged_len)
qed

section \<open>Stored feed values\<close>

text \<open>C10.  For a field number from 1 to 8, \<open>getFieldAsString\<close> returns the value stored for
  that field in the last feed record and sets \<open>lastReadStatus\<close> to 200 whatever it held
  before; for any other field number it returns the empty string and sets
  \<open>lastReadStatus\<close> to -201.  Nothing else of the object changes.\<close>
theorem getFieldAsString_result:
  "getFieldAsString field s =
     (if 1 \<le> field \<and> field \<le> 8
      then (nextReadField (lastFeed s) (field - 1), s\<lparr>lastReadStatus := 200\<rparr>)
      else ([], s\<lparr>lastReadStatus := - 201\<rparr>))"
  by (auto simp: getFieldAsString_def FIELDNUM_MIN_def FIELDNUM_MAX_def
      TS_OK_SUCCESS_def TS_ERR_INVALID_FIELD_NUM_def)

end
